theory Spec2Isabelle
  imports Complex_Main "HOL-Library.AList" "HOL-Library.Sublist"
begin

section \<open>The model loader of AFIRGen (model_loader.py)\<close>

text \<open>
  The development embeds the class \<open>ModelLoader\<close> of \<open>model_loader.py\<close>. Conventions:

  \<^item> A Python \<open>dict\<close> is an association list in insertion order. \<open>d[k] = v\<close> is
    \<open>AList.update k v d\<close> (an existing key keeps its position, a new key goes to the end),
    \<open>d.get(k)\<close> is \<open>map_of d k\<close>, \<open>d.pop(k, None)\<close> is \<open>AList.delete k d\<close>.
  \<^item> A value of Python type \<open>Any\<close> that may be \<open>None\<close> is an \<open>option\<close>.
  \<^item> The methods mutate \<open>self\<close>; here they take the loader and return the new one.
  \<^item> The world outside the class is a parameter: the file system and hashlib are the
    record \<open>env\<close>; the loader capability of a config is a function of the number of
    earlier calls, so that a loader may fail first and succeed later.
  \<^item> The calls the class makes to the outside (the loader capability, \<open>time.sleep\<close>, the
    checksum computation, \<open>mkdir\<close>, the thread pool) are recorded, in order, in the field
    \<open>effects\<close>.
  \<^item> A leading underscore of a method name is dropped (\<open>_load_single_model\<close> is
    \<open>load_single_model\<close>). Logging and the wall-clock field \<open>load_time\<close> are left out:
    they do not influence any other field.
\<close>

subsection \<open>Data model\<close>

datatype ModelStatus = NOT_LOADED | LOADING | LOADED | FAILED

fun status_value :: "ModelStatus \<Rightarrow> string" where
  "status_value NOT_LOADED = ''not_loaded''"
| "status_value LOADING = ''loading''"
| "status_value LOADED = ''loaded''"
| "status_value FAILED = ''failed''"

text \<open>What one call of a loader capability does: raise an exception (with its text),
  or return a handle, which may be Python's \<open>None\<close>.\<close>

datatype 'h outcome = Raises string | Returns "'h option"

type_synonym kwargs = "(string \<times> string) list"

record 'h ModelConfig =
  name :: string
  path :: string
  loader_func :: "string \<Rightarrow> kwargs \<Rightarrow> nat \<Rightarrow> 'h outcome"
  required :: bool
  expected_checksum :: "string option"
  checksum_algorithm :: string
  retry_count :: int
  loader_kwargs :: "kwargs option"

record 'h ModelLoadResult =
  success :: bool
  model :: "'h option"
  error_message :: "string option"
  checksum :: "string option"

datatype error = ValueError string | RuntimeError string | ModelValidationError string

fun str_of_error :: "error \<Rightarrow> string" where
  "str_of_error (ValueError m) = m"
| "str_of_error (RuntimeError m) = m"
| "str_of_error (ModelValidationError m) = m"

datatype event =
    Mkdir string
  | ThreadPoolExecutor int
  | CalculateChecksum string string
  | LoaderCall string
  | Sleep rat

record 'h ModelLoader =
  model_dir :: string
  validate_checksums :: bool
  models :: "(string \<times> 'h option) list"
  model_configs :: "(string \<times> 'h ModelConfig) list"
  model_status :: "(string \<times> ModelStatus) list"
  model_errors :: "(string \<times> string) list"
  model_checksums :: "(string \<times> string) list"
  effects :: "event list"

definition init_loader :: "string \<Rightarrow> bool \<Rightarrow> 'h ModelLoader" where
  "init_loader dir vc =
     \<lparr>model_dir = dir, validate_checksums = vc, models = [], model_configs = [],
      model_status = [], model_errors = [], model_checksums = [], effects = []\<rparr>"

subsection \<open>Registry\<close>

definition register_model :: "'h ModelLoader \<Rightarrow> 'h ModelConfig \<Rightarrow> 'h ModelLoader" where
  "register_model s config =
     s\<lparr>model_configs := AList.update (name config) config (model_configs s),
       model_status := AList.update (name config) NOT_LOADED (model_status s)\<rparr>"

subsection \<open>Strings\<close>

text \<open>Python's \<open>sep.join(xs)\<close>, \<open>str.lower\<close> on ASCII text (a hex digest is ASCII),
  and \<open>str(n)\<close> for a count.\<close>

fun join :: "string \<Rightarrow> string list \<Rightarrow> string" where
  "join sep [] = []"
| "join sep [x] = x"
| "join sep (x # y # ys) = x @ sep @ join sep (y # ys)"

definition lower_char :: "char \<Rightarrow> char" where
  "lower_char c =
     (let n = (of_char c :: nat) in if 65 \<le> n \<and> n \<le> 90 then char_of (n + 32) else c)"

definition lower :: "string \<Rightarrow> string" where
  "lower s = map lower_char s"

function str_nat :: "nat \<Rightarrow> string" where
  "str_nat n =
     (if n < 10 then [char_of (48 + n)] else str_nat (n div 10) @ [char_of (48 + n mod 10)])"
  by pat_completeness auto
termination
  by (relation "measure id") auto

definition quote :: string where
  "quote = [CHR 0x27]"

subsection \<open>Validator\<close>

text \<open>The file system and hashlib, as far as the class consults them. \<open>file_bytes\<close> is
  opening and reading a file: the text of the exception, or the content.
  \<open>hashlib_hexdigest\<close> is the digest of all the bytes fed to a hash object.\<close>

record env =
  path_exists :: "string \<Rightarrow> bool"
  path_is_file :: "string \<Rightarrow> bool"
  st_size :: "string \<Rightarrow> nat"
  access_R_OK :: "string \<Rightarrow> bool"
  hashlib_supported :: "string \<Rightarrow> bool"
  algorithms_available :: "string list"
  file_bytes :: "string \<Rightarrow> string + string"
  hashlib_hexdigest :: "string \<Rightarrow> string \<Rightarrow> string"

definition validate_file_exists :: "env \<Rightarrow> string \<Rightarrow> bool \<times> string" where
  "validate_file_exists e p =
     (if \<not> path_exists e p then (False, ''Model file not found: '' @ p)
      else if \<not> path_is_file e p then (False, ''Path is not a file: '' @ p)
      else if st_size e p = 0 then (False, ''Model file is empty (0 bytes): '' @ p)
      else if \<not> access_R_OK e p
        then (False, ''Model file is not readable (permission denied): '' @ p)
      else (True, ''File validation passed''))"

text \<open>The loop \<open>while chunk := f.read(chunk_size): hash_func.update(chunk)\<close>; \<open>fed\<close> is
  what the hash object has been given so far.\<close>

function read_chunks :: "nat \<Rightarrow> string \<Rightarrow> string \<Rightarrow> string" where
  "read_chunks chunk_size rest fed =
     (if take chunk_size rest = [] then fed
      else read_chunks chunk_size (drop chunk_size rest) (fed @ take chunk_size rest))"
  by pat_completeness auto
termination
  by (relation "measure (\<lambda>(c, rest, fed). length rest)") auto

definition calculate_checksum :: "env \<Rightarrow> string \<Rightarrow> string \<Rightarrow> nat \<Rightarrow> error + string" where
  "calculate_checksum e p algorithm chunk_size =
     (if \<not> hashlib_supported e algorithm
      then Inl (ValueError (''Unsupported hash algorithm: '' @ algorithm @ ''. Supported: ''
                  @ join '', '' (algorithms_available e)))
      else case file_bytes e p of
             Inl exc \<Rightarrow> Inl (ModelValidationError (''Failed to calculate checksum: '' @ exc))
           | Inr content \<Rightarrow> Inr (hashlib_hexdigest e algorithm (read_chunks chunk_size content [])))"

definition validate_checksum :: "env \<Rightarrow> string \<Rightarrow> string \<Rightarrow> string \<Rightarrow> bool \<times> string \<times> string" where
  "validate_checksum e p expected algorithm =
     (case calculate_checksum e p algorithm 8192 of
        Inl exc \<Rightarrow> (False, [], ''Checksum validation failed: '' @ str_of_error exc)
      | Inr actual \<Rightarrow>
          if lower actual \<noteq> lower expected
          then (False, actual,
                ''Checksum mismatch! Expected: '' @ expected @ '', Got: '' @ actual @ ''. ''
                @ ''File may be corrupted or tampered with.'')
          else (True, actual, ''Checksum validation passed''))"

definition validate_model_file ::
  "env \<Rightarrow> 'h ModelConfig \<Rightarrow> 'h ModelLoader \<Rightarrow> (bool \<times> string) \<times> 'h ModelLoader" where
  "validate_model_file e config s =
     (case validate_file_exists e (path config) of
        (False, error_msg) \<Rightarrow> ((False, error_msg), s)
      | (True, _) \<Rightarrow>
          (case expected_checksum config of
             None \<Rightarrow> ((True, ''Validation passed''), s)
           | Some expected \<Rightarrow>
               if validate_checksums s \<and> expected \<noteq> []
               then
                 (let s1 = s\<lparr>effects := effects s
                              @ [CalculateChecksum (path config) (checksum_algorithm config)]\<rparr>
                  in case validate_checksum e (path config) expected (checksum_algorithm config) of
                       (False, actual_checksum, error_msg) \<Rightarrow> ((False, error_msg), s1)
                     | (True, actual_checksum, error_msg) \<Rightarrow>
                         ((True, ''Validation passed''),
                          s1\<lparr>model_checksums :=
                               AList.update (name config) actual_checksum (model_checksums s1)\<rparr>))
               else ((True, ''Validation passed''), s)))"

subsection \<open>Loading one model\<close>

definition loader_calls :: "string \<Rightarrow> event list \<Rightarrow> nat" where
  "loader_calls n evs = length (filter (\<lambda>ev. ev = LoaderCall n) evs)"

definition sleeps :: "event list \<Rightarrow> rat list" where
  "sleeps evs = concat (map (\<lambda>ev. case ev of Sleep d \<Rightarrow> [d] | _ \<Rightarrow> []) evs)"

text \<open>The events of the retry loop of the model \<open>n\<close>: calls of its loader and sleeps.\<close>

fun retry_event :: "string \<Rightarrow> event \<Rightarrow> bool" where
  "retry_event n (LoaderCall m) = (m = n)"
| "retry_event n (Sleep d) = True"
| "retry_event n (Mkdir p) = False"
| "retry_event n (ThreadPoolExecutor w) = False"
| "retry_event n (CalculateChecksum p a) = False"

text \<open>What the retry loop of the model \<open>n\<close> does in the attempts \<open>as\<close> that fail and are
  followed by another one: the call, then the sleep of \<open>0.5 * (2 ** attempt)\<close> seconds.\<close>

definition retry_events :: "string \<Rightarrow> nat list \<Rightarrow> event list" where
  "retry_events n as = concat (map (\<lambda>i. [LoaderCall n, Sleep ((1 / 2) * 2 ^ i)]) as)"

definition checksum_events :: "event list \<Rightarrow> event list" where
  "checksum_events evs =
     filter (\<lambda>ev. case ev of CalculateChecksum p a \<Rightarrow> True | _ \<Rightarrow> False) evs"

definition pool_events :: "event list \<Rightarrow> event list" where
  "pool_events evs = filter (\<lambda>ev. case ev of ThreadPoolExecutor w \<Rightarrow> True | _ \<Rightarrow> False) evs"

text \<open>One call \<open>config.loader_func(config.path, **loader_kwargs)\<close> followed by the check
  \<open>if model is None: raise RuntimeError("Loader returned None")\<close>: the text of the
  exception caught by the \<open>except\<close> clause, or the handle.\<close>

definition call_loader :: "'h ModelConfig \<Rightarrow> nat \<Rightarrow> string + 'h" where
  "call_loader config k =
     (case loader_func config (path config)
             (case loader_kwargs config of None \<Rightarrow> [] | Some kw \<Rightarrow> kw) k of
        Raises exc \<Rightarrow> Inl exc
      | Returns None \<Rightarrow> Inl ''Loader returned None''
      | Returns (Some m) \<Rightarrow> Inr m)"

text \<open>The loop \<open>for attempt in range(config.retry_count)\<close>, over the list of the attempts
  still to make; the last equation is the code after the loop.\<close>

fun load_attempts ::
  "'h ModelConfig \<Rightarrow> nat list \<Rightarrow> 'h ModelLoader \<Rightarrow> 'h ModelLoadResult \<times> 'h ModelLoader" where
  "load_attempts config (attempt # rest) s =
     (let s1 = s\<lparr>effects := effects s @ [LoaderCall (name config)]\<rparr>
      in case call_loader config (loader_calls (name config) (effects s)) of
           Inr m \<Rightarrow>
             (\<lparr>success = True, model = Some m, error_message = None,
               checksum = map_of (model_checksums s1) (name config)\<rparr>,
              s1\<lparr>models := AList.update (name config) (Some m) (models s1),
                 model_status := AList.update (name config) LOADED (model_status s1),
                 model_errors := AList.delete (name config) (model_errors s1)\<rparr>)
         | Inl exc \<Rightarrow>
             if int attempt = retry_count config - 1
             then
               (\<lparr>success = False, model = None, error_message = Some exc, checksum = None\<rparr>,
                s1\<lparr>model_status := AList.update (name config) FAILED (model_status s1),
                   model_errors := AList.update (name config) exc (model_errors s1)\<rparr>)
             else
               load_attempts config rest
                 (s1\<lparr>effects := effects s1 @ [Sleep ((1 / 2) * 2 ^ attempt)]\<rparr>))"
| "load_attempts config [] s =
     (\<lparr>success = False, model = None, error_message = Some ''Unknown error during loading'',
       checksum = None\<rparr>, s)"

definition load_single_model ::
  "env \<Rightarrow> 'h ModelConfig \<Rightarrow> 'h ModelLoader \<Rightarrow> 'h ModelLoadResult \<times> 'h ModelLoader" where
  "load_single_model e config s =
     (let s1 = s\<lparr>model_status := AList.update (name config) LOADING (model_status s)\<rparr>
      in case validate_model_file e config s1 of
           ((False, validation_msg), s2) \<Rightarrow>
             (\<lparr>success = False, model = None, error_message = Some validation_msg,
               checksum = None\<rparr>,
              s2\<lparr>model_status := AList.update (name config) FAILED (model_status s2),
                 model_errors := AList.update (name config) validation_msg (model_errors s2)\<rparr>)
         | ((True, _), s2) \<Rightarrow>
             load_attempts config [0 ..< nat (retry_count config)] s2)"

subsection \<open>Loading all models\<close>

definition failed_result :: "'h ModelLoadResult" where
  "failed_result = \<lparr>success = False, model = None, error_message = None, checksum = None\<rparr>"

definition result_of :: "(string \<times> 'h ModelLoadResult) list \<Rightarrow> string \<Rightarrow> 'h ModelLoadResult" where
  "result_of results n = (case map_of results n of None \<Rightarrow> failed_result | Some r \<Rightarrow> r)"

definition missing_required_results ::
  "'h ModelLoader \<Rightarrow> (string \<times> 'h ModelLoadResult) list \<Rightarrow> string list" where
  "missing_required_results s results =
     map fst (filter (\<lambda>(n, config). required config \<and> \<not> success (result_of results n))
                (model_configs s))"

definition critical_msg :: "string list \<Rightarrow> string" where
  "critical_msg missing_required =
     ''Critical models failed to load: '' @ join '', '' missing_required @ ''. ''
     @ ''Service cannot start without these models.''"

definition no_models_msg :: string where
  "no_models_msg = ''No models loaded successfully! Service cannot start.''"

definition validate_required_models ::
  "'h ModelLoader \<Rightarrow> (string \<times> 'h ModelLoadResult) list \<Rightarrow> error + unit" where
  "validate_required_models s results =
     (let missing_required = missing_required_results s results
      in if missing_required \<noteq> [] then Inl (RuntimeError (critical_msg missing_required))
         else if \<not> list_ex success (map snd results) then Inl (RuntimeError no_models_msg)
         else Inr ())"

text \<open>One task after the other: the sequential loop, and the tasks of the pool in the
  order in which they are taken to run.\<close>

fun load_each ::
  "env \<Rightarrow> 'h ModelConfig list \<Rightarrow> (string \<times> 'h ModelLoadResult) list \<Rightarrow> 'h ModelLoader
   \<Rightarrow> (string \<times> 'h ModelLoadResult) list \<times> 'h ModelLoader" where
  "load_each e [] results s = (results, s)"
| "load_each e (config # configs) results s =
     (case load_single_model e config s of
        (r, s') \<Rightarrow> load_each e configs (AList.update (name config) r results) s')"

definition pool_size :: "nat \<Rightarrow> int option \<Rightarrow> int" where
  "pool_size n max_workers = (case max_workers of None \<Rightarrow> min (int n) 3 | Some w \<Rightarrow> w)"

text \<open>\<open>load_all_models\<close>, in two parts: \<open>load_results\<close> is its body up to the summary (the
  bootstrap of the model directory, the creation of the pool and the loads), and
  \<open>load_all_models\<close> adds the check of the required models. A raise leaves the loader as
  it is at that moment, so the loader is returned beside the error too.

  The pool is the standard library's \<open>ThreadPoolExecutor(max_workers=...)\<close>: its
  constructor raises \<open>ValueError("max_workers must be greater than 0")\<close> when the number
  it is given is not positive, and that exception leaves \<open>load_all_models\<close> before any
  load has run. The model records the number the constructor is called with and raises
  as the library does.

  In parallel mode every task writes the entries of its own name only, so the loader that
  results is the one of running the tasks one after the other in some order; that order is
  the parameter \<open>completion\<close>, a rearrangement of the registered configs. The handler
  around \<open>future.result()\<close> has no counterpart: a load of this model raises nothing,
  since the file system and the loaders are total functions here. The argument
  \<open>parallel\<close> of the source is \<open>in_parallel\<close> here.\<close>

definition pool_error_msg :: string where
  "pool_error_msg = ''max_workers must be greater than 0''"

definition load_results ::
  "env \<Rightarrow> bool \<Rightarrow> int option \<Rightarrow> 'h ModelConfig list \<Rightarrow> 'h ModelLoader
   \<Rightarrow> (error + (string \<times> 'h ModelLoadResult) list) \<times> 'h ModelLoader" where
  "load_results e in_parallel max_workers completion s =
     (let s0 = (if \<not> path_exists e (model_dir s)
                then s\<lparr>effects := effects s @ [Mkdir (model_dir s)]\<rparr> else s)
      in if in_parallel \<and> length (model_configs s0) > 1
         then
           (let workers = pool_size (length (model_configs s0)) max_workers;
                s1 = s0\<lparr>effects := effects s0 @ [ThreadPoolExecutor workers]\<rparr>
            in if workers \<le> 0 then (Inl (ValueError pool_error_msg), s1)
               else (case load_each e completion [] s1 of
                       (results, s2) \<Rightarrow> (Inr results, s2)))
         else (case load_each e (map snd (model_configs s0)) [] s0 of
                 (results, s2) \<Rightarrow> (Inr results, s2)))"

definition load_all_models ::
  "env \<Rightarrow> bool \<Rightarrow> int option \<Rightarrow> 'h ModelConfig list \<Rightarrow> 'h ModelLoader
   \<Rightarrow> (error + (string \<times> 'h ModelLoadResult) list) \<times> 'h ModelLoader" where
  "load_all_models e in_parallel max_workers completion s =
     (case load_results e in_parallel max_workers completion s of
        (Inl exc, s2) \<Rightarrow> (Inl exc, s2)
      | (Inr results, s2) \<Rightarrow>
          (case validate_required_models s2 results of
             Inl exc \<Rightarrow> (Inl exc, s2)
           | Inr _ \<Rightarrow> (Inr results, s2)))"

subsection \<open>Queries\<close>

definition get_model :: "'h ModelLoader \<Rightarrow> string \<Rightarrow> error + 'h" where
  "get_model s model_name =
     (if model_name \<notin> set (map fst (model_configs s))
      then Inl (ValueError (''Unknown model: '' @ quote @ model_name @ quote
                  @ ''. Available models: '' @ join '', '' (map fst (model_configs s))))
      else case (case map_of (models s) model_name of None \<Rightarrow> None | Some m \<Rightarrow> m) of
             None \<Rightarrow>
               Inl (RuntimeError
                 (''Model '' @ quote @ model_name @ quote @ '' is not available (status: ''
                  @ status_value (case map_of (model_status s) model_name of
                                    None \<Rightarrow> NOT_LOADED | Some st \<Rightarrow> st)
                  @ ''). Loading failed with: ''
                  @ (case map_of (model_errors s) model_name of
                       None \<Rightarrow> ''Unknown error'' | Some err \<Rightarrow> err)))
           | Some m \<Rightarrow> Inr m)"

definition is_model_loaded :: "'h ModelLoader \<Rightarrow> string \<Rightarrow> bool" where
  "is_model_loaded s model_name =
     (case map_of (models s) model_name of
        None \<Rightarrow> False
      | Some m \<Rightarrow> m \<noteq> None \<and> map_of (model_status s) model_name = Some LOADED)"

record health =
  status :: string
  message :: string
  models_loaded :: "(string \<times> bool) list"
  loaded_count :: nat
  total_count :: nat
  errors :: "(string \<times> string) list"

definition health_models_status :: "'h ModelLoader \<Rightarrow> (string \<times> bool) list" where
  "health_models_status s =
     map (\<lambda>n. (n, is_model_loaded s n)) (map fst (model_configs s))"

definition health_missing_required :: "'h ModelLoader \<Rightarrow> string list" where
  "health_missing_required s =
     filter (\<lambda>n. \<not> (case map_of (health_models_status s) n of None \<Rightarrow> False | Some b \<Rightarrow> b))
       (map fst (filter (\<lambda>(n, config). required config) (model_configs s)))"

definition get_health_status :: "'h ModelLoader \<Rightarrow> health" where
  "get_health_status s =
     (let models_status = health_models_status s;
          loaded = length (filter (\<lambda>b. b) (map snd models_status));
          total = length models_status;
          missing_required = health_missing_required s;
          (st, msg) =
            (if loaded = total then (''healthy'', ''All models loaded successfully'')
             else if missing_required \<noteq> []
               then (''unhealthy'', ''Critical models not loaded: '' @ join '', '' missing_required)
             else if loaded > 0
               then (''degraded'', str_nat loaded @ ''/'' @ str_nat total
                       @ '' models loaded (optional models missing)'')
             else (''unhealthy'', ''No models loaded''));
          msg' = (if model_errors s \<noteq> []
                  then msg @ ''. Errors: ''
                       @ join ''; '' (map (\<lambda>(k, v). k @ '': '' @ v) (model_errors s))
                  else msg)
      in \<lparr>status = st, message = msg', models_loaded = models_status, loaded_count = loaded,
          total_count = total, errors = model_errors s\<rparr>)"

subsection \<open>Example loaders\<close>

text \<open>A file system in which every path but \<open>missing.bin\<close> is a readable file of four
  bytes, \<open>data\<close>, whose sha256 digest is taken to be \<open>ab12\<close>, and configs for handles that are numbers.\<close>

definition ex_env :: env where
  "ex_env =
     \<lparr>path_exists = (\<lambda>p. p \<noteq> ''missing.bin''), path_is_file = (\<lambda>p. True),
      st_size = (\<lambda>p. 4), access_R_OK = (\<lambda>p. True),
      hashlib_supported = (\<lambda>a. a = ''sha256''), algorithms_available = [''sha256''],
      file_bytes = (\<lambda>p. Inr ''data''),
      hashlib_hexdigest = (\<lambda>a d. if d = ''data'' then ''ab12'' else ''0000'')\<rparr>"

definition ex_config ::
  "string \<Rightarrow> string \<Rightarrow> bool \<Rightarrow> int \<Rightarrow> string option \<Rightarrow> (nat \<Rightarrow> nat outcome) \<Rightarrow> nat ModelConfig" where
  "ex_config n p req r expected f =
     \<lparr>name = n, path = p, loader_func = (\<lambda>_ _. f), required = req, expected_checksum = expected,
      checksum_algorithm = ''sha256'', retry_count = r, loader_kwargs = None\<rparr>"

definition ex_loader :: "nat ModelConfig list \<Rightarrow> nat ModelLoader" where
  "ex_loader configs = fold (\<lambda>c s. register_model s c) configs (init_loader ''models'' True)"

text \<open>A loader that raises at its first call and returns the handle 7 afterwards.\<close>

definition ex_flaky :: "nat ModelConfig" where
  "ex_flaky = ex_config ''A'' ''a.bin'' True 1 None
     (\<lambda>k. if k = 0 then Raises ''boom'' else Returns (Some 7))"

text \<open>An optional model whose file is missing.\<close>

definition ex_missing :: "nat ModelConfig" where
  "ex_missing = ex_config ''B'' ''missing.bin'' False 3 None (\<lambda>k. Returns (Some 8))"

text \<open>A required model whose loader fails at every call: it returns \<open>None\<close> at the
  second call and raises at the others.\<close>

definition ex_broken :: "nat ModelConfig" where
  "ex_broken = ex_config ''A'' ''a.bin'' True 3 None
     (\<lambda>k. if k = 1 then Returns None else Raises ''out of memory'')"

text \<open>A model whose expected checksum differs from the digest of its file.\<close>

definition ex_sum_bad :: "nat ModelConfig" where
  "ex_sum_bad = ex_config ''A'' ''a.bin'' True 1 (Some ''FFFF'') (\<lambda>k. Returns (Some 7))"

text \<open>Two loaders before any load: a required model whose file is missing beside an
  optional one that loads, and a required model that loads beside an optional one whose
  file is missing. \<open>ex_mixed\<close> is the first of them after the sequential loads.\<close>

definition ex_required_missing :: "nat ModelLoader" where
  "ex_required_missing =
     ex_loader [ex_config ''A'' ''missing.bin'' True 1 None (\<lambda>k. Returns (Some 7)),
                ex_config ''B'' ''b.bin'' False 1 None (\<lambda>k. Returns (Some 8))]"

definition ex_optional_missing :: "nat ModelLoader" where
  "ex_optional_missing =
     ex_loader [ex_config ''A'' ''a.bin'' True 1 None (\<lambda>k. Returns (Some 7)), ex_missing]"

definition ex_mixed :: "nat ModelLoader" where
  "ex_mixed = snd (load_results ex_env False None [] ex_required_missing)"

text \<open>Two optional models with valid files that load.\<close>

definition ex_two_optional :: "nat ModelLoader" where
  "ex_two_optional =
     ex_loader [ex_config ''A'' ''a.bin'' False 1 None (\<lambda>k. Returns (Some 7)),
                ex_config ''B'' ''b.bin'' False 1 None (\<lambda>k. Returns (Some 8))]"

text \<open>Two optional models with valid files, the second with \<open>retry_count = 0\<close>.\<close>

definition ex_zero_retry :: "nat ModelLoader" where
  "ex_zero_retry =
     ex_loader [ex_config ''A'' ''a.bin'' False 1 None (\<lambda>k. Returns (Some 7)),
                ex_config ''B'' ''b.bin'' False 0 None (\<lambda>k. Returns (Some 8))]"

section \<open>Properties\<close>

text \<open>The definitions to unfold when a function is run on a concrete loader.\<close>

lemmas ex_simps = ex_env_def ex_config_def ex_loader_def init_loader_def register_model_def
  load_single_model_def validate_model_file_def validate_file_exists_def validate_checksum_def
  calculate_checksum_def call_loader_def loader_calls_def sleeps_def lower_def lower_char_def
  load_results_def load_all_models_def validate_required_models_def missing_required_results_def
  result_of_def failed_result_def pool_size_def pool_error_msg_def

subsection \<open>Association lists\<close>

lemma map_fst_update_present:
  "k \<in> fst ` set al \<Longrightarrow> map fst (AList.update k v al) = map fst al"
  by (simp add: update_keys)

subsection \<open>C10: registering a name again\<close>

text \<open>
  C10. \<open>register_model\<close> with a name that is already registered does not raise (the function
  is total and has no error result): it overwrites the config stored for that name, in
  place, and sets the status of that name to \<open>NOT_LOADED\<close>; the handles, the recorded
  errors and the recorded checksums stay as they are, also for that name.
\<close>

theorem register_model_overwrites:
  assumes "name config \<in> fst ` set (model_configs s)"
  shows "map_of (model_configs (register_model s config)) (name config) = Some config
    \<and> map fst (model_configs (register_model s config)) = map fst (model_configs s)
    \<and> map_of (model_status (register_model s config)) (name config) = Some NOT_LOADED
    \<and> models (register_model s config) = models s
    \<and> model_errors (register_model s config) = model_errors s
    \<and> model_checksums (register_model s config) = model_checksums s
    \<and> (\<forall>n. n \<noteq> name config \<longrightarrow>
           map_of (model_configs (register_model s config)) n = map_of (model_configs s) n
         \<and> map_of (model_status (register_model s config)) n = map_of (model_status s) n)"
  using assms by (simp add: register_model_def update_conv' map_fst_update_present)

theorem register_model_overwrites_witness:
  "let s = (ex_loader [ex_config ''A'' ''a.bin'' True 1 None (\<lambda>k. Returns (Some 7))])
             \<lparr>models := [(''A'', Some 7)], model_status := [(''A'', LOADED)],
              model_errors := [(''A'', ''old'')], model_checksums := [(''A'', ''ab12'')]\<rparr>;
       c = ex_config ''A'' ''b.bin'' False 2 None (\<lambda>k. Returns None);
       s' = register_model s c
   in name c \<in> fst ` set (model_configs s)
      \<and> map_of (model_configs s') ''A'' = Some c
      \<and> map fst (model_configs s') = [''A'']
      \<and> map_of (model_status s') ''A'' = Some NOT_LOADED
      \<and> models s' = [(''A'', Some 7)] \<and> model_errors s' = [(''A'', ''old'')]
      \<and> model_checksums s' = [(''A'', ''ab12'')]"
  using register_model_overwrites
    [of "ex_config ''A'' ''b.bin'' False 2 None (\<lambda>k. Returns None)"
        "(ex_loader [ex_config ''A'' ''a.bin'' True 1 None (\<lambda>k. Returns (Some 7))])
             \<lparr>models := [(''A'', Some 7)], model_status := [(''A'', LOADED)],
              model_errors := [(''A'', ''old'')], model_checksums := [(''A'', ''ab12'')]\<rparr>"]
  by (simp add: ex_loader_def ex_config_def init_loader_def register_model_def Let_def)

subsection \<open>Effects and frames\<close>

lemma loader_calls_append:
  "loader_calls n (xs @ ys) = loader_calls n xs + loader_calls n ys"
  by (simp add: loader_calls_def)

lemma sleeps_append: "sleeps (xs @ ys) = sleeps xs @ sleeps ys"
  by (simp add: sleeps_def)

text \<open>With a positive chunk size the loop feeds the whole content to the hash object.\<close>

lemma read_chunks_all: "read_chunks (Suc n) xs fed = fed @ xs"
proof (induction "Suc n" xs fed rule: read_chunks.induct)
  case (1 rest fed)
  show ?case
  proof (cases "rest = []")
    case True
    then show ?thesis by simp
  next
    case False
    then have "take (Suc n) rest \<noteq> []" by (cases rest) auto
    then show ?thesis using 1 by (subst read_chunks.simps) simp
  qed
qed

lemma validate_model_file_frame:
  assumes "validate_model_file e c s = ((b, msg), s')"
  shows "models s' = models s \<and> model_status s' = model_status s
    \<and> model_errors s' = model_errors s \<and> model_configs s' = model_configs s
    \<and> validate_checksums s' = validate_checksums s \<and> model_dir s' = model_dir s
    \<and> (effects s' = effects s
        \<or> effects s' = effects s @ [CalculateChecksum (path c) (checksum_algorithm c)])"
  using assms
  by (auto simp: validate_model_file_def Let_def
      split: prod.splits bool.splits option.splits if_splits)

lemma validate_model_file_status:
  "fst (validate_model_file e c (s\<lparr>model_status := x\<rparr>)) = fst (validate_model_file e c s)"
  by (auto simp: validate_model_file_def Let_def
      split: prod.splits bool.splits option.splits if_splits)

lemma load_attempts_frame:
  assumes "load_attempts c as s = (r, s')"
  shows "model_configs s' = model_configs s \<and> model_checksums s' = model_checksums s
    \<and> validate_checksums s' = validate_checksums s \<and> model_dir s' = model_dir s
    \<and> (\<forall>n. n \<noteq> name c \<longrightarrow> map_of (model_status s') n = map_of (model_status s) n
            \<and> map_of (models s') n = map_of (models s) n
            \<and> map_of (model_errors s') n = map_of (model_errors s) n)
    \<and> (\<exists>new. effects s' = effects s @ new \<and> list_all (retry_event (name c)) new)"
  using assms
proof (induction as arbitrary: s)
  case Nil
  then show ?case by auto
next
  case (Cons a as)
  show ?case
  proof (cases "call_loader c (loader_calls (name c) (effects s))")
    case (Inr m)
    with Cons.prems show ?thesis
      by (auto simp: Let_def update_conv' delete_conv')
  next
    case (Inl exc)
    show ?thesis
    proof (cases "int a = retry_count c - 1")
      case True
      with Inl Cons.prems show ?thesis
        by (auto simp: Let_def update_conv')
    next
      case False
      let ?s1 = "s\<lparr>effects := effects s @ [LoaderCall (name c)] @ [Sleep ((1 / 2) * 2 ^ a)]\<rparr>"
      from False Inl Cons.prems have "load_attempts c as ?s1 = (r, s')"
        by (simp add: Let_def)
      from Cons.IH[OF this] show ?thesis
        by (auto simp: Let_def)
    qed
  qed
qed

lemma load_attempts_success_clears:
  assumes "load_attempts c as s = (r, s')" and "success r"
  shows "map_of (model_errors s') (name c) = None
    \<and> map_of (model_status s') (name c) = Some LOADED
    \<and> (\<exists>m. model r = Some m \<and> map_of (models s') (name c) = Some (Some m))"
  using assms
proof (induction as arbitrary: s)
  case Nil
  then show ?case by auto
next
  case (Cons a as)
  show ?case
  proof (cases "call_loader c (loader_calls (name c) (effects s))")
    case (Inr m)
    with Cons.prems show ?thesis
      by (auto simp: Let_def update_conv' delete_conv')
  next
    case (Inl exc)
    show ?thesis
    proof (cases "int a = retry_count c - 1")
      case True
      with Inl Cons.prems show ?thesis
        by (auto simp: Let_def)
    next
      case False
      with Inl Cons.prems Cons.IH show ?thesis
        by (simp add: Let_def)
    qed
  qed
qed

text \<open>\<open>load_single_model\<close> with the result of the validation named.\<close>

lemma load_single_model_cases:
  "load_single_model e c s =
     (let s1 = s\<lparr>model_status := AList.update (name c) LOADING (model_status s)\<rparr>;
          v = validate_model_file e c s1
      in if fst (fst v)
         then load_attempts c [0 ..< nat (retry_count c)] (snd v)
         else (\<lparr>success = False, model = None, error_message = Some (snd (fst v)),
                 checksum = None\<rparr>,
               (snd v)\<lparr>model_status := AList.update (name c) FAILED (model_status (snd v)),
                   model_errors := AList.update (name c) (snd (fst v)) (model_errors (snd v))\<rparr>))"
  by (auto simp: load_single_model_def Let_def split: prod.splits bool.splits)

subsection \<open>C8: a successful load clears the recorded error\<close>

text \<open>
  C8. Whenever \<open>load_single_model\<close> returns a successful result for a config (a first load
  or a reload after a failure), no error is recorded for the name of that config in the
  loader it leaves.
\<close>

theorem successful_load_clears_error:
  assumes "load_single_model e config s = (r, s')" and "success r"
  shows "map_of (model_errors s') (name config) = None
    \<and> name config \<notin> fst ` set (model_errors s')"
proof -
  let ?s1 = "s\<lparr>model_status := AList.update (name config) LOADING (model_status s)\<rparr>"
  let ?v = "validate_model_file e config ?s1"
  from assms have "fst (fst ?v)"
    by (auto simp: load_single_model_cases Let_def split: if_splits)
  with assms(1) have "load_attempts config [0 ..< nat (retry_count config)] (snd ?v) = (r, s')"
    by (simp add: load_single_model_cases Let_def)
  from load_attempts_success_clears[OF this assms(2)]
  have "map_of (model_errors s') (name config) = None" by simp
  then show ?thesis by (simp add: map_of_eq_None_iff)
qed

theorem successful_load_clears_error_witness:
  "map_of (model_errors (snd (load_single_model ex_env ex_flaky (ex_loader [ex_flaky])))) ''A''
      = Some ''boom''
   \<and> success (fst (load_single_model ex_env ex_flaky
        (snd (load_single_model ex_env ex_flaky (ex_loader [ex_flaky])))))
   \<and> map_of (model_errors (snd (load_single_model ex_env ex_flaky
        (snd (load_single_model ex_env ex_flaky (ex_loader [ex_flaky])))))) (name ex_flaky) = None"
proof -
  let ?s1 = "snd (load_single_model ex_env ex_flaky (ex_loader [ex_flaky]))"
  have h1: "load_single_model ex_env ex_flaky ?s1
      = (fst (load_single_model ex_env ex_flaky ?s1), snd (load_single_model ex_env ex_flaky ?s1))"
    by simp
  have h2: "success (fst (load_single_model ex_env ex_flaky ?s1))"
    by (simp add: ex_flaky_def ex_simps)
  have h3: "map_of (model_errors ?s1) ''A'' = Some ''boom''"
    by (simp add: ex_flaky_def ex_simps)
  from successful_load_clears_error[OF h1 h2] h2 h3 show ?thesis by simp
qed

subsection \<open>C3: a failed validation never reaches the loader\<close>

lemma validate_model_file_fails:
  assumes "validate_file_exists e (path c) = (False, msg)
     \<or> (fst (validate_file_exists e (path c)) \<and> validate_checksums s
         \<and> expected_checksum c = Some x \<and> x \<noteq> []
         \<and> validate_checksum e (path c) x (checksum_algorithm c) = (False, a, msg))"
  shows "fst (validate_model_file e c s) = (False, msg)"
  using assms
  by (auto simp: validate_model_file_def Let_def split: prod.splits bool.splits)

lemma load_single_model_invalid:
  assumes "validate_file_exists e (path config) = (False, msg)
     \<or> (fst (validate_file_exists e (path config)) \<and> validate_checksums s
         \<and> expected_checksum config = Some x \<and> x \<noteq> []
         \<and> validate_checksum e (path config) x (checksum_algorithm config) = (False, a, msg))"
    and "load_single_model e config s = (r, s')"
  shows "r = \<lparr>success = False, model = None, error_message = Some msg, checksum = None\<rparr>
    \<and> map_of (model_status s') (name config) = Some FAILED
    \<and> map_of (model_errors s') (name config) = Some msg
    \<and> (\<forall>n. loader_calls n (effects s') = loader_calls n (effects s))
    \<and> sleeps (effects s') = sleeps (effects s)
    \<and> models s' = models s"
proof -
  let ?s1 = "s\<lparr>model_status := AList.update (name config) LOADING (model_status s)\<rparr>"
  obtain b m s2 where v: "validate_model_file e config ?s1 = ((b, m), s2)"
    by (metis surj_pair)
  have "fst (validate_model_file e config ?s1) = (False, msg)"
    using validate_model_file_fails[OF assms(1)] by (simp add: validate_model_file_status)
  with v have bm: "b = False" "m = msg" by simp_all
  from validate_model_file_frame[OF v]
  have fr: "models s2 = models s" "model_errors s2 = model_errors s"
    "effects s2 = effects s
       \<or> effects s2 = effects s @ [CalculateChecksum (path config) (checksum_algorithm config)]"
    by simp_all
  from assms(2) v bm
  have r: "r = \<lparr>success = False, model = None, error_message = Some msg, checksum = None\<rparr>"
    and s': "s' = s2\<lparr>model_status := AList.update (name config) FAILED (model_status s2),
                 model_errors := AList.update (name config) msg (model_errors s2)\<rparr>"
    by (simp_all add: load_single_model_cases Let_def)
  from fr(3) have "(\<forall>n. loader_calls n (effects s2) = loader_calls n (effects s))
      \<and> sleeps (effects s2) = sleeps (effects s)"
    by (auto simp: loader_calls_def sleeps_def)
  with r s' fr(1) show ?thesis
    by (simp add: update_conv')
qed

text \<open>
  C3. If the file check of a config fails, or its checksum check is enabled and fails,
  \<open>load_single_model\<close> returns an unsuccessful result carrying the message of the failed
  check, leaves the status \<open>FAILED\<close> and that message recorded for the name, and makes no
  call of any loader and no sleep: no retry attempt is made. No handle is stored.
\<close>

theorem validation_failure_skips_loader:
  assumes "validate_file_exists e (path config) = (False, msg)
     \<or> (fst (validate_file_exists e (path config)) \<and> validate_checksums s
         \<and> expected_checksum config = Some x \<and> x \<noteq> []
         \<and> validate_checksum e (path config) x (checksum_algorithm config) = (False, a, msg))"
    and "load_single_model e config s = (r, s')"
  shows "r = \<lparr>success = False, model = None, error_message = Some msg, checksum = None\<rparr>
    \<and> map_of (model_status s') (name config) = Some FAILED
    \<and> map_of (model_errors s') (name config) = Some msg
    \<and> (\<forall>n. loader_calls n (effects s') = loader_calls n (effects s))
    \<and> sleeps (effects s') = sleeps (effects s)
    \<and> models s' = models s"
  using assms by (rule load_single_model_invalid)

theorem validation_failure_skips_loader_witness:
  "validate_file_exists ex_env (path ex_missing) = (False, ''Model file not found: missing.bin'')
   \<and> fst (load_single_model ex_env ex_missing (ex_loader [ex_missing]))
       = \<lparr>success = False, model = None,
          error_message = Some ''Model file not found: missing.bin'', checksum = None\<rparr>
   \<and> map_of (model_status (snd (load_single_model ex_env ex_missing (ex_loader [ex_missing]))))
        (name ex_missing) = Some FAILED
   \<and> effects (snd (load_single_model ex_env ex_missing (ex_loader [ex_missing]))) = []"
proof -
  have h1: "validate_file_exists ex_env (path ex_missing)
      = (False, ''Model file not found: missing.bin'')"
    by (simp add: ex_missing_def ex_simps)
  have h2: "load_single_model ex_env ex_missing (ex_loader [ex_missing])
      = (fst (load_single_model ex_env ex_missing (ex_loader [ex_missing])),
         snd (load_single_model ex_env ex_missing (ex_loader [ex_missing])))"
    by simp
  have h3: "effects (snd (load_single_model ex_env ex_missing (ex_loader [ex_missing]))) = []"
    by (simp add: ex_missing_def ex_simps)
  from validation_failure_skips_loader[OF disjI1[OF h1] h2] h1 h3 show ?thesis by simp
qed

subsection \<open>C4: a loader that keeps failing\<close>

lemma loader_calls_retry_events: "loader_calls n (retry_events n as) = length as"
  by (induction as) (simp_all add: loader_calls_def retry_events_def)

lemma sleeps_retry_events: "sleeps (retry_events n as) = map (\<lambda>i. (1 / 2) * 2 ^ i) as"
  by (induction as) (simp_all add: sleeps_def retry_events_def)

lemma load_attempts_all_fail:
  assumes "\<forall>k. isl (call_loader c k)"
    and "as \<noteq> []" and "int (last as) = retry_count c - 1"
    and "\<forall>a \<in> set (butlast as). int a \<noteq> retry_count c - 1"
    and "load_attempts c as s = (r, s')"
  shows "\<not> success r \<and> model r = None
    \<and> error_message r
        = Some (projl (call_loader c (loader_calls (name c) (effects s) + length as - 1)))
    \<and> effects s' = effects s @ retry_events (name c) (butlast as) @ [LoaderCall (name c)]
    \<and> model_status s' = AList.update (name c) FAILED (model_status s)
    \<and> model_errors s'
        = AList.update (name c)
            (projl (call_loader c (loader_calls (name c) (effects s) + length as - 1)))
            (model_errors s)
    \<and> models s' = models s"
  using assms(2-)
proof (induction as arbitrary: s)
  case Nil
  then show ?case by simp
next
  case (Cons a as)
  let ?k = "loader_calls (name c) (effects s)"
  from assms(1) obtain exc where exc: "call_loader c ?k = Inl exc"
    by (metis isl_def)
  show ?case
  proof (cases "as = []")
    case True
    with Cons.prems exc show ?thesis
      by (auto simp: Let_def retry_events_def)
  next
    case False
    with Cons.prems have ne: "int a \<noteq> retry_count c - 1" by simp
    let ?s1 = "s\<lparr>effects := effects s @ [LoaderCall (name c)] @ [Sleep ((1 / 2) * 2 ^ a)]\<rparr>"
    from ne exc Cons.prems have run: "load_attempts c as ?s1 = (r, s')"
      by (simp add: Let_def)
    from False Cons.prems have l: "int (last as) = retry_count c - 1"
      and b: "\<forall>a \<in> set (butlast as). int a \<noteq> retry_count c - 1"
      by auto
    have k: "loader_calls (name c) (effects ?s1) + length as - 1 = ?k + length (a # as) - 1"
      using False by (cases as) (simp_all add: loader_calls_def)
    from Cons.IH[OF False l b run] False show ?thesis
      unfolding k by (simp add: retry_events_def)
  qed
qed

lemma validate_model_file_effects_status:
  "effects (snd (validate_model_file e c (s\<lparr>model_status := x\<rparr>)))
     = effects (snd (validate_model_file e c s))"
  by (auto simp: validate_model_file_def Let_def
      split: prod.splits bool.splits option.splits if_splits)

lemma call_loader_fails:
  assumes "case loader_func c (path c) (case loader_kwargs c of None \<Rightarrow> [] | Some kw \<Rightarrow> kw) k of
             Raises exc \<Rightarrow> True | Returns m \<Rightarrow> m = None"
  shows "call_loader c k
     = Inl (case loader_func c (path c) (case loader_kwargs c of None \<Rightarrow> [] | Some kw \<Rightarrow> kw) k of
              Raises exc \<Rightarrow> exc | Returns m \<Rightarrow> ''Loader returned None'')"
  using assms by (auto simp: call_loader_def split: outcome.splits option.splits)

text \<open>
  C4. Let the config have \<open>retry_count = R\<close> with \<open>R \<ge> 1\<close>, let its validation pass, and
  let every call of its loader fail, by raising or by returning \<open>None\<close>. Then
  \<open>load_single_model\<close> calls the loader exactly \<open>R\<close> times; between the calls it sleeps
  \<open>0.5 * 2^i\<close> seconds after the failed attempt \<open>i\<close>, for \<open>i = 0, ..., R - 2\<close>, and does
  not sleep after the last one; the status is \<open>FAILED\<close> afterwards and the text recorded
  for the name, and returned in the result, is the text of the last failure (the text of
  the exception raised, or \<open>Loader returned None\<close>).
\<close>

theorem persistent_failure_retries:
  fixes R :: nat
  assumes "retry_count config = int R" and "1 \<le> R"
    and "fst (fst (validate_model_file e config s))"
    and "\<forall>k. case loader_func config (path config)
                  (case loader_kwargs config of None \<Rightarrow> [] | Some kw \<Rightarrow> kw) k of
               Raises exc \<Rightarrow> True | Returns m \<Rightarrow> m = None"
    and "load_single_model e config s = (r, s')"
    and "last_exc = (case loader_func config (path config)
                       (case loader_kwargs config of None \<Rightarrow> [] | Some kw \<Rightarrow> kw)
                       (loader_calls (name config) (effects s) + R - 1) of
                       Raises exc \<Rightarrow> exc | Returns m \<Rightarrow> ''Loader returned None'')"
  shows "loader_calls (name config) (effects s') = loader_calls (name config) (effects s) + R
    \<and> sleeps (effects s') = sleeps (effects s) @ map (\<lambda>i. (1 / 2) * 2 ^ i) [0 ..< R - 1]
    \<and> effects s' = effects (snd (validate_model_file e config s))
         @ retry_events (name config) [0 ..< R - 1] @ [LoaderCall (name config)]
    \<and> map_of (model_status s') (name config) = Some FAILED
    \<and> \<not> success r \<and> model r = None \<and> error_message r = Some last_exc
    \<and> map_of (model_errors s') (name config) = Some last_exc
    \<and> models s' = models s"
proof -
  let ?n = "name config"
  let ?s1 = "s\<lparr>model_status := AList.update ?n LOADING (model_status s)\<rparr>"
  obtain b m s2 where v: "validate_model_file e config ?s1 = ((b, m), s2)"
    by (metis surj_pair)
  have "fst (validate_model_file e config ?s1) = fst (validate_model_file e config s)"
    by (rule validate_model_file_status)
  with v have "fst (validate_model_file e config s) = (b, m)" by simp
  with assms(3) have b: "b" by simp
  from validate_model_file_frame[OF v]
  have fr: "models s2 = models s" "model_errors s2 = model_errors s"
    "effects s2 = effects s
       \<or> effects s2 = effects s @ [CalculateChecksum (path config) (checksum_algorithm config)]"
    by simp_all
  have e2: "effects s2 = effects (snd (validate_model_file e config s))"
    using v validate_model_file_effects_status[where e=e and c=config and s=s
        and x="AList.update ?n LOADING (model_status s)"]
    by simp
  from fr(3) have k2: "loader_calls ?n (effects s2) = loader_calls ?n (effects s)"
    and sl2: "sleeps (effects s2) = sleeps (effects s)"
    by (auto simp: loader_calls_def sleeps_def)
  from assms(1,5) v b have run: "load_attempts config [0 ..< R] s2 = (r, s')"
    by (simp add: load_single_model_cases Let_def)
  have fails: "\<forall>k. isl (call_loader config k)"
    using assms(4) call_loader_fails[of config] by simp
  from assms(2) have ne: "[0 ..< R] \<noteq> []" by simp
  from assms(1,2) have l: "int (last [0 ..< R]) = retry_count config - 1"
    by (cases R) simp_all
  from assms(2) have bl: "butlast [0 ..< R] = [0 ..< R - 1]"
    by (cases R) simp_all
  from assms(1) have nb: "\<forall>a \<in> set (butlast [0 ..< R]). int a \<noteq> retry_count config - 1"
    unfolding bl by auto
  have le: "projl (call_loader config (loader_calls ?n (effects s2) + length [0 ..< R] - 1))
      = last_exc"
    using assms(4,6) call_loader_fails[of config "loader_calls ?n (effects s) + R - 1"]
    by (simp add: k2)
  from load_attempts_all_fail[OF fails ne l nb run]
  have res: "\<not> success r" "model r = None" "error_message r = Some last_exc"
    "effects s' = effects s2 @ retry_events ?n [0 ..< R - 1] @ [LoaderCall ?n]"
    "model_status s' = AList.update ?n FAILED (model_status s2)"
    "model_errors s' = AList.update ?n last_exc (model_errors s2)"
    "models s' = models s2"
    unfolding le bl by simp_all
  have calls: "loader_calls ?n (effects s') = loader_calls ?n (effects s) + R"
    using assms(2) by (simp add: res(4) loader_calls_append loader_calls_retry_events k2)
      (simp add: loader_calls_def)
  have sl: "sleeps (effects s') = sleeps (effects s) @ map (\<lambda>i. (1 / 2) * 2 ^ i) [0 ..< R - 1]"
    by (simp add: res(4) sleeps_append sleeps_retry_events sl2) (simp add: sleeps_def)
  from calls sl res e2 fr(1) show ?thesis
    by (simp add: update_conv')
qed

theorem persistent_failure_retries_witness:
  "retry_count ex_broken = int 3
   \<and> loader_calls ''A'' (effects (snd (load_single_model ex_env ex_broken (ex_loader [ex_broken])))) = 3
   \<and> sleeps (effects (snd (load_single_model ex_env ex_broken (ex_loader [ex_broken]))))
       = [1 / 2, 1]
   \<and> effects (snd (load_single_model ex_env ex_broken (ex_loader [ex_broken])))
       = [LoaderCall ''A'', Sleep (1 / 2), LoaderCall ''A'', Sleep 1, LoaderCall ''A'']
   \<and> map_of (model_status (snd (load_single_model ex_env ex_broken (ex_loader [ex_broken])))) ''A''
       = Some FAILED
   \<and> map_of (model_errors (snd (load_single_model ex_env ex_broken (ex_loader [ex_broken])))) ''A''
       = Some ''out of memory''"
proof -
  let ?s = "ex_loader [ex_broken]"
  have h1: "retry_count ex_broken = int 3"
    by (simp add: ex_broken_def ex_config_def)
  have h2: "1 \<le> (3::nat)" by simp
  have h3: "fst (fst (validate_model_file ex_env ex_broken ?s))"
    by (simp add: ex_broken_def ex_simps)
  have h4: "\<forall>k. case loader_func ex_broken (path ex_broken)
                  (case loader_kwargs ex_broken of None \<Rightarrow> [] | Some kw \<Rightarrow> kw) k of
               Raises exc \<Rightarrow> True | Returns m \<Rightarrow> m = None"
    by (simp add: ex_broken_def ex_config_def)
  have h5: "load_single_model ex_env ex_broken ?s
      = (fst (load_single_model ex_env ex_broken ?s), snd (load_single_model ex_env ex_broken ?s))"
    by simp
  have v: "effects (snd (validate_model_file ex_env ex_broken ?s)) = []"
    by (simp add: ex_broken_def ex_simps)
  have u: "[0 ..< (3::nat) - 1] = [0, 1]"
    by (simp add: upt_rec)
  have n: "name ex_broken = ''A''"
    by (simp add: ex_broken_def ex_config_def)
  have e0: "effects ?s = []"
    by (simp add: ex_loader_def init_loader_def register_model_def)
  have le: "(case loader_func ex_broken (path ex_broken)
                (case loader_kwargs ex_broken of None \<Rightarrow> [] | Some kw \<Rightarrow> kw)
                (loader_calls ''A'' [] + 3 - 1) of
              Raises exc \<Rightarrow> exc | Returns m \<Rightarrow> ''Loader returned None'') = ''out of memory''"
    by (simp add: ex_broken_def ex_config_def loader_calls_def)
  from persistent_failure_retries[OF h1 h2 h3 h4 h5 refl] h1 show ?thesis
    unfolding n e0 v u le
    by (simp add: retry_events_def loader_calls_def sleeps_def)
qed

subsection \<open>C5: checksum validation\<close>

lemma retry_events_no_checksum:
  "list_all (retry_event n) new \<Longrightarrow> checksum_events new = [] \<and> pool_events new = []"
proof (induction new)
  case Nil
  then show ?case by (simp add: checksum_events_def pool_events_def)
next
  case (Cons ev new)
  then show ?case by (cases ev) (simp_all add: checksum_events_def pool_events_def)
qed

lemma checksum_events_append:
  "checksum_events (xs @ ys) = checksum_events xs @ checksum_events ys"
  by (simp add: checksum_events_def)

lemma validate_model_file_disabled:
  assumes "\<not> (validate_checksums s \<and> (\<exists>x. expected_checksum c = Some x \<and> x \<noteq> []))"
  shows "validate_model_file e c s
     = (if fst (validate_file_exists e (path c)) then (True, ''Validation passed'')
        else validate_file_exists e (path c), s)"
  using assms
  by (auto simp: validate_model_file_def Let_def split: prod.splits bool.splits option.splits)

lemma load_single_model_disabled:
  assumes "\<not> (validate_checksums s \<and> (\<exists>x. expected_checksum c = Some x \<and> x \<noteq> []))"
    and "load_single_model e c s = (r, s')"
  shows "checksum_events (effects s') = checksum_events (effects s)
    \<and> model_checksums s' = model_checksums s"
proof -
  let ?s1 = "s\<lparr>model_status := AList.update (name c) LOADING (model_status s)\<rparr>"
  from assms(1)
  have "\<not> (validate_checksums ?s1 \<and> (\<exists>x. expected_checksum c = Some x \<and> x \<noteq> []))"
    by simp
  from validate_model_file_disabled[OF this]
  have v: "snd (validate_model_file e c ?s1) = ?s1" by simp
  show ?thesis
  proof (cases "fst (fst (validate_model_file e c ?s1))")
    case True
    with assms(2) v have "load_attempts c [0 ..< nat (retry_count c)] ?s1 = (r, s')"
      by (simp add: load_single_model_cases Let_def)
    from load_attempts_frame[OF this] retry_events_no_checksum show ?thesis
      by (auto simp: checksum_events_append)
  next
    case False
    with assms(2) v show ?thesis
      by (auto simp: load_single_model_cases Let_def)
  qed
qed

lemma mismatch_text:
  "sublist ''mismatch''
     (''Checksum mismatch! Expected: '' @ expected @ '', Got: '' @ actual @ ''. ''
      @ ''File may be corrupted or tampered with.'')
   \<and> sublist ''corrupted''
     (''Checksum mismatch! Expected: '' @ expected @ '', Got: '' @ actual @ ''. ''
      @ ''File may be corrupted or tampered with.'')"
proof
  have "''Checksum mismatch! Expected: '' @ expected @ '', Got: '' @ actual @ ''. ''
      @ ''File may be corrupted or tampered with.''
    = ''Checksum '' @ ''mismatch''
      @ (''! Expected: '' @ expected @ '', Got: '' @ actual @ ''. ''
         @ ''File may be corrupted or tampered with.'')"
    by simp
  then show "sublist ''mismatch''
     (''Checksum mismatch! Expected: '' @ expected @ '', Got: '' @ actual @ ''. ''
      @ ''File may be corrupted or tampered with.'')"
    unfolding sublist_def by blast
  have "''Checksum mismatch! Expected: '' @ expected @ '', Got: '' @ actual @ ''. ''
      @ ''File may be corrupted or tampered with.''
    = (''Checksum mismatch! Expected: '' @ expected @ '', Got: '' @ actual @ ''. ''
       @ ''File may be '') @ ''corrupted'' @ '' or tampered with.''"
    by simp
  then show "sublist ''corrupted''
     (''Checksum mismatch! Expected: '' @ expected @ '', Got: '' @ actual @ ''. ''
      @ ''File may be corrupted or tampered with.'')"
    unfolding sublist_def by blast
qed

text \<open>
  C5. If the loader validates checksums, the config has a non-empty expected checksum, the
  file check passes and the digest computed for the file differs from the expected one
  when both are put in lower case, then \<open>load_single_model\<close> returns an unsuccessful result
  without a handle, whose error text is the mismatch message (it contains \<open>mismatch\<close> and
  \<open>corrupted\<close>) and is recorded for the name; the status is \<open>FAILED\<close>, the map of the
  handles is unchanged and no loader is called. If the loader does not validate checksums,
  or the config has no expected checksum or an empty one, the validation is the file check
  alone and leaves the loader as it is, and the load computes no checksum and records none.
\<close>

theorem checksum_mismatch_fails:
  "(validate_checksums s \<and> expected_checksum config = Some expected \<and> expected \<noteq> []
      \<and> fst (validate_file_exists e (path config))
      \<and> calculate_checksum e (path config) (checksum_algorithm config) 8192 = Inr actual
      \<and> lower actual \<noteq> lower expected
      \<and> load_single_model e config s = (r, s')
    \<longrightarrow> \<not> success r \<and> model r = None
      \<and> error_message r
          = Some (''Checksum mismatch! Expected: '' @ expected @ '', Got: '' @ actual @ ''. ''
                  @ ''File may be corrupted or tampered with.'')
      \<and> (\<exists>msg. error_message r = Some msg \<and> sublist ''mismatch'' msg
            \<and> sublist ''corrupted'' msg
            \<and> map_of (model_errors s') (name config) = Some msg)
      \<and> map_of (model_status s') (name config) = Some FAILED
      \<and> models s' = models s
      \<and> (\<forall>n. loader_calls n (effects s') = loader_calls n (effects s)))
   \<and> (\<not> (validate_checksums s \<and> (\<exists>x. expected_checksum config = Some x \<and> x \<noteq> []))
      \<longrightarrow> validate_model_file e config s
            = (if fst (validate_file_exists e (path config)) then (True, ''Validation passed'')
               else validate_file_exists e (path config), s)
        \<and> (load_single_model e config s = (r, s')
            \<longrightarrow> checksum_events (effects s') = checksum_events (effects s)
              \<and> model_checksums s' = model_checksums s))"
proof (intro conjI impI)
  assume a: "validate_checksums s \<and> expected_checksum config = Some expected \<and> expected \<noteq> []
      \<and> fst (validate_file_exists e (path config))
      \<and> calculate_checksum e (path config) (checksum_algorithm config) 8192 = Inr actual
      \<and> lower actual \<noteq> lower expected
      \<and> load_single_model e config s = (r, s')"
  let ?msg = "''Checksum mismatch! Expected: '' @ expected @ '', Got: '' @ actual @ ''. ''
                  @ ''File may be corrupted or tampered with.''"
  from a have vc: "validate_checksum e (path config) expected (checksum_algorithm config)
      = (False, actual, ?msg)"
    by (simp add: validate_checksum_def)
  from a vc have "validate_file_exists e (path config) = (False, ?msg)
     \<or> (fst (validate_file_exists e (path config)) \<and> validate_checksums s
         \<and> expected_checksum config = Some expected \<and> expected \<noteq> []
         \<and> validate_checksum e (path config) expected (checksum_algorithm config)
             = (False, actual, ?msg))"
    by simp
  from load_single_model_invalid[OF this] a
  have res: "r = \<lparr>success = False, model = None, error_message = Some ?msg, checksum = None\<rparr>"
    "map_of (model_status s') (name config) = Some FAILED"
    "map_of (model_errors s') (name config) = Some ?msg"
    "\<forall>n. loader_calls n (effects s') = loader_calls n (effects s)"
    "models s' = models s"
    by blast+
  from res(1) show "\<not> success r" "model r = None" "error_message r = Some ?msg" by simp_all
  from res(1,3) mismatch_text[of expected actual]
  show "\<exists>msg. error_message r = Some msg \<and> sublist ''mismatch'' msg
            \<and> sublist ''corrupted'' msg
            \<and> map_of (model_errors s') (name config) = Some msg"
    by simp
  from res show "map_of (model_status s') (name config) = Some FAILED" "models s' = models s"
    "\<forall>n. loader_calls n (effects s') = loader_calls n (effects s)"
    by simp_all
next
  assume "\<not> (validate_checksums s \<and> (\<exists>x. expected_checksum config = Some x \<and> x \<noteq> []))"
  then show "validate_model_file e config s
            = (if fst (validate_file_exists e (path config)) then (True, ''Validation passed'')
               else validate_file_exists e (path config), s)"
    by (rule validate_model_file_disabled)
next
  assume "\<not> (validate_checksums s \<and> (\<exists>x. expected_checksum config = Some x \<and> x \<noteq> []))"
    and "load_single_model e config s = (r, s')"
  then show "checksum_events (effects s') = checksum_events (effects s)"
    "model_checksums s' = model_checksums s"
    using load_single_model_disabled by blast+
qed

theorem checksum_mismatch_fails_witness:
  "validate_checksums (ex_loader [ex_sum_bad]) \<and> expected_checksum ex_sum_bad = Some ''FFFF''
   \<and> calculate_checksum ex_env (path ex_sum_bad) (checksum_algorithm ex_sum_bad) 8192
       = Inr ''ab12''
   \<and> lower ''ab12'' \<noteq> lower ''FFFF''
   \<and> error_message (fst (load_single_model ex_env ex_sum_bad (ex_loader [ex_sum_bad])))
       = Some (''Checksum mismatch! Expected: FFFF, Got: ab12. ''
               @ ''File may be corrupted or tampered with.'')
   \<and> models (snd (load_single_model ex_env ex_sum_bad (ex_loader [ex_sum_bad]))) = []
   \<and> loader_calls ''A''
        (effects (snd (load_single_model ex_env ex_sum_bad (ex_loader [ex_sum_bad])))) = 0
   \<and> \<not> validate_checksums ((ex_loader [ex_sum_bad])\<lparr>validate_checksums := False\<rparr>)
   \<and> checksum_events (effects (snd (load_single_model ex_env ex_sum_bad
        ((ex_loader [ex_sum_bad])\<lparr>validate_checksums := False\<rparr>)))) = []"
proof -
  let ?s = "ex_loader [ex_sum_bad]"
  let ?t = "?s\<lparr>validate_checksums := False\<rparr>"
  have h: "validate_checksums ?s \<and> expected_checksum ex_sum_bad = Some ''FFFF'' \<and> ''FFFF'' \<noteq> []
      \<and> fst (validate_file_exists ex_env (path ex_sum_bad))
      \<and> calculate_checksum ex_env (path ex_sum_bad) (checksum_algorithm ex_sum_bad) 8192
          = Inr ''ab12''
      \<and> lower ''ab12'' \<noteq> lower ''FFFF''
      \<and> load_single_model ex_env ex_sum_bad ?s
          = (fst (load_single_model ex_env ex_sum_bad ?s),
             snd (load_single_model ex_env ex_sum_bad ?s))"
  proof -
    have "validate_checksums ?s" "expected_checksum ex_sum_bad = Some ''FFFF''"
      "fst (validate_file_exists ex_env (path ex_sum_bad))"
      "calculate_checksum ex_env (path ex_sum_bad) (checksum_algorithm ex_sum_bad) 8192
          = Inr ''ab12''"
      "lower ''ab12'' \<noteq> lower ''FFFF''"
      by code_simp+
    then show ?thesis by simp
  qed
  have g: "\<not> (validate_checksums ?t \<and> (\<exists>x. expected_checksum ex_sum_bad = Some x \<and> x \<noteq> []))"
    by simp
  have g2: "load_single_model ex_env ex_sum_bad ?t
      = (fst (load_single_model ex_env ex_sum_bad ?t),
         snd (load_single_model ex_env ex_sum_bad ?t))"
    by simp
  have e0: "effects ?s = []" "effects ?t = []" "models ?s = []"
    by (simp_all add: ex_loader_def init_loader_def register_model_def)
  note a = checksum_mismatch_fails[where s="?s" and config=ex_sum_bad and e=ex_env
      and expected="''FFFF''" and actual="''ab12''", THEN conjunct1, rule_format, OF h]
  note b = checksum_mismatch_fails[where s="?t" and config=ex_sum_bad and e=ex_env,
      THEN conjunct2, rule_format, OF g, THEN conjunct2, rule_format, OF g2]
  from a b h show ?thesis
    unfolding e0 by (simp add: loader_calls_def checksum_events_def)
qed

subsection \<open>Messages and the example loader\<close>

text \<open>Every element of a joined list occurs in the joined text.\<close>

lemma sublist_join: "n \<in> set xs \<Longrightarrow> sublist n (join sep xs)"
proof (induction sep xs rule: join.induct)
  case (1 sep)
  then show ?case by simp
next
  case (2 sep x)
  then show ?case by simp
next
  case (3 sep x y ys)
  show ?case
  proof (cases "n = x")
    case True
    then show ?thesis by simp
  next
    case False
    with 3 have "sublist n (join sep (y # ys))" by simp
    then show ?thesis by (simp add: sublist_append)
  qed
qed

lemma ex_mixed_eval:
  "models ex_mixed = [(''B'', Some 8)]"
  "model_status ex_mixed = [(''A'', FAILED), (''B'', LOADED)]"
  "model_errors ex_mixed = [(''A'', ''Model file not found: missing.bin'')]"
  "map fst (model_configs ex_mixed) = [''A'', ''B'']"
  "map (required \<circ> snd) (model_configs ex_mixed) = [True, False]"
  by (simp_all add: ex_mixed_def ex_required_missing_def ex_simps)

subsection \<open>C9: \<open>get_model\<close>\<close>

text \<open>
  C9. \<open>get_model\<close> raises \<open>ValueError\<close> exactly when the name is not a key of the
  registered configs, and the message then lists the registered names; it raises
  \<open>RuntimeError\<close> exactly when the name is registered and no handle is stored for it (no
  entry, or the entry \<open>None\<close>), and the message then carries the value of the current
  status (\<open>not_loaded\<close> when there is none) and the recorded error (\<open>Unknown error\<close> when
  there is none); it returns a handle exactly when the name is registered and that
  handle is stored for it. What it returns is a handle, never \<open>None\<close>.
\<close>

theorem get_model_cases:
  "((\<exists>msg. get_model s n = Inl (ValueError msg)) \<longleftrightarrow> n \<notin> fst ` set (model_configs s))
   \<and> (n \<notin> fst ` set (model_configs s) \<longrightarrow>
        get_model s n
          = Inl (ValueError (''Unknown model: '' @ quote @ n @ quote @ ''. Available models: ''
                   @ join '', '' (map fst (model_configs s))))
        \<and> (\<forall>m \<in> fst ` set (model_configs s).
              sublist m (join '', '' (map fst (model_configs s)))))
   \<and> ((\<exists>msg. get_model s n = Inl (RuntimeError msg))
        \<longleftrightarrow> n \<in> fst ` set (model_configs s) \<and> (\<forall>h. map_of (models s) n \<noteq> Some (Some h)))
   \<and> (n \<in> fst ` set (model_configs s) \<and> (\<forall>h. map_of (models s) n \<noteq> Some (Some h)) \<longrightarrow>
        get_model s n
          = Inl (RuntimeError
              (''Model '' @ quote @ n @ quote @ '' is not available (status: ''
               @ status_value (case map_of (model_status s) n of
                                 None \<Rightarrow> NOT_LOADED | Some st \<Rightarrow> st)
               @ ''). Loading failed with: ''
               @ (case map_of (model_errors s) n of
                    None \<Rightarrow> ''Unknown error'' | Some err \<Rightarrow> err))))
   \<and> (get_model s n = Inr h
        \<longleftrightarrow> n \<in> fst ` set (model_configs s) \<and> map_of (models s) n = Some (Some h))"
proof -
  have j: "\<forall>m \<in> fst ` set (model_configs s). sublist m (join '', '' (map fst (model_configs s)))"
    using sublist_join[of _ "map fst (model_configs s)" "'', ''"] by auto
  show ?thesis
    using j by (auto simp: get_model_def split: option.splits)
qed

theorem get_model_cases_witness:
  "''C'' \<notin> fst ` set (model_configs ex_mixed)
   \<and> get_model ex_mixed ''C''
       = Inl (ValueError (''Unknown model: '' @ quote @ ''C'' @ quote
                @ ''. Available models: A, B''))
   \<and> ''A'' \<in> fst ` set (model_configs ex_mixed)
   \<and> get_model ex_mixed ''A''
       = Inl (RuntimeError (''Model '' @ quote @ ''A'' @ quote
                @ '' is not available (status: failed). ''
                @ ''Loading failed with: Model file not found: missing.bin''))
   \<and> get_model ex_mixed ''B'' = Inr 8"
proof -
  have k: "fst ` set (model_configs ex_mixed) = {''A'', ''B''}"
    using ex_mixed_eval(4) by (metis list.set_map list.simps(15) set_empty2 empty_set)
  have h1: "''C'' \<notin> fst ` set (model_configs ex_mixed)" unfolding k by simp
  have h2: "''A'' \<in> fst ` set (model_configs ex_mixed)
      \<and> (\<forall>h. map_of (models ex_mixed) ''A'' \<noteq> Some (Some h))"
    unfolding k by (simp add: ex_mixed_eval)
  have h3: "''B'' \<in> fst ` set (model_configs ex_mixed)
      \<and> map_of (models ex_mixed) ''B'' = Some (Some 8)"
    unfolding k by (simp add: ex_mixed_eval)
  note t1 = get_model_cases[of ex_mixed "''C''", THEN conjunct2, THEN conjunct1, rule_format,
      OF h1, THEN conjunct1]
  note t2 = get_model_cases[of ex_mixed "''A''", THEN conjunct2, THEN conjunct2, THEN conjunct2,
      THEN conjunct1, rule_format, OF h2]
  note t3 = get_model_cases[of ex_mixed "''B''" 8, THEN conjunct2, THEN conjunct2,
      THEN conjunct2, THEN conjunct2, THEN iffD2, OF h3]
  from t1 t2 t3 h1 h2 show ?thesis
    by (simp add: ex_mixed_eval)
qed

subsection \<open>C1: the health verdict\<close>

lemma map_of_health_models_status:
  "map_of (health_models_status s) n
     = (if n \<in> fst ` set (model_configs s) then Some (is_model_loaded s n) else None)"
proof -
  have "map_of (map (\<lambda>k. (k, is_model_loaded s k)) ks) n
      = (if n \<in> set ks then Some (is_model_loaded s n) else None)" for ks
    by (induction ks) auto
  from this[of "map fst (model_configs s)"] show ?thesis
    by (simp add: health_models_status_def)
qed

lemma health_missing_required_iff:
  "health_missing_required s \<noteq> []
     \<longleftrightarrow> (\<exists>(n, c) \<in> set (model_configs s). required c \<and> \<not> is_model_loaded s n)"
proof -
  have "set (health_missing_required s)
      = {n. \<exists>c. (n, c) \<in> set (model_configs s) \<and> required c \<and> \<not> is_model_loaded s n}"
    by (force simp: health_missing_required_def map_of_health_models_status)
  then have "health_missing_required s \<noteq> []
      \<longleftrightarrow> {n. \<exists>c. (n, c) \<in> set (model_configs s) \<and> required c \<and> \<not> is_model_loaded s n} \<noteq> {}"
    by (metis set_empty)
  then show ?thesis by auto
qed

lemma health_counts:
  "loaded_count (get_health_status s)
     = length (filter (is_model_loaded s) (map fst (model_configs s)))
   \<and> total_count (get_health_status s) = length (model_configs s)"
  by (simp add: get_health_status_def Let_def health_models_status_def split: prod.splits)
     (simp add: filter_map comp_def)

lemma all_loaded_iff:
  "length (filter (is_model_loaded s) (map fst (model_configs s))) = length (model_configs s)
     \<longleftrightarrow> (\<forall>(n, c) \<in> set (model_configs s). is_model_loaded s n)"
proof -
  have "length (filter P xs) = length xs \<longleftrightarrow> (\<forall>x \<in> set xs. P x)" for P and xs :: "string list"
    by (metis filter_id_conv length_filter_less less_irrefl)
  from this[of "is_model_loaded s" "map fst (model_configs s)"] show ?thesis
    by auto
qed

text \<open>
  C1. The verdict of \<open>get_health_status\<close> is \<open>healthy\<close> exactly when the loaded count
  equals the total count; otherwise it is \<open>unhealthy\<close> when some required model is not
  loaded; otherwise \<open>degraded\<close> when the loaded count is positive; otherwise \<open>unhealthy\<close>.
  The loaded count is the number of registered names that are loaded and the total count
  the number of registered names. Whenever some required model is not loaded the verdict
  is \<open>unhealthy\<close>, whatever else is loaded.
\<close>

theorem health_verdict:
  "status (get_health_status s)
     = (if loaded_count (get_health_status s) = total_count (get_health_status s) then ''healthy''
        else if \<exists>(n, c) \<in> set (model_configs s). required c \<and> \<not> is_model_loaded s n
          then ''unhealthy''
        else if loaded_count (get_health_status s) > 0 then ''degraded''
        else ''unhealthy'')
   \<and> loaded_count (get_health_status s)
       = length (filter (is_model_loaded s) (map fst (model_configs s)))
   \<and> total_count (get_health_status s) = length (model_configs s)
   \<and> (status (get_health_status s) = ''healthy''
        \<longleftrightarrow> loaded_count (get_health_status s) = total_count (get_health_status s))
   \<and> ((\<exists>(n, c) \<in> set (model_configs s). required c \<and> \<not> is_model_loaded s n)
        \<longrightarrow> status (get_health_status s) = ''unhealthy'')"
proof -
  let ?h = "get_health_status s"
  have v: "status ?h
     = (if loaded_count ?h = total_count ?h then ''healthy''
        else if health_missing_required s \<noteq> [] then ''unhealthy''
        else if loaded_count ?h > 0 then ''degraded''
        else ''unhealthy'')"
    by (simp add: get_health_status_def Let_def split: prod.splits)
  have m: "(\<exists>(n, c) \<in> set (model_configs s). required c \<and> \<not> is_model_loaded s n)
      \<Longrightarrow> loaded_count ?h \<noteq> total_count ?h"
    using all_loaded_iff[of s] health_counts[of s] by auto
  show ?thesis
    unfolding v health_missing_required_iff using m health_counts[of s] by auto
qed

theorem health_verdict_witness:
  "(\<exists>(n, c) \<in> set (model_configs ex_mixed). required c \<and> \<not> is_model_loaded ex_mixed n)
   \<and> status (get_health_status ex_mixed) = ''unhealthy''
   \<and> loaded_count (get_health_status ex_mixed) = 1
   \<and> total_count (get_health_status ex_mixed) = 2"
proof -
  have a: "\<not> is_model_loaded ex_mixed ''A''" "is_model_loaded ex_mixed ''B''"
    by (simp_all add: is_model_loaded_def ex_mixed_eval)
  have c: "model_configs ex_mixed
      = [(''A'', ex_config ''A'' ''missing.bin'' True 1 None (\<lambda>k. Returns (Some 7))),
         (''B'', ex_config ''B'' ''b.bin'' False 1 None (\<lambda>k. Returns (Some 8)))]"
    by (simp add: ex_mixed_def ex_required_missing_def ex_simps)
  have h: "\<exists>(n, c) \<in> set (model_configs ex_mixed). required c \<and> \<not> is_model_loaded ex_mixed n"
    unfolding c using a by (simp add: ex_config_def)
  have l: "length (model_configs ex_mixed) = 2"
    unfolding c by simp
  from health_verdict[of ex_mixed] h a l show ?thesis
    by (simp add: ex_mixed_eval)
qed

subsection \<open>What the loads leave unchanged\<close>

text \<open>A load changes the entries of its own name only, never the registered configs, and
  creates no pool.\<close>

lemma pool_events_append: "pool_events (xs @ ys) = pool_events xs @ pool_events ys"
  by (simp add: pool_events_def)

lemma load_single_model_frame:
  assumes "load_single_model e c s = (r, s')"
  shows "model_configs s' = model_configs s \<and> model_dir s' = model_dir s
    \<and> validate_checksums s' = validate_checksums s
    \<and> pool_events (effects s') = pool_events (effects s)
    \<and> (\<forall>n. n \<noteq> name c \<longrightarrow> map_of (model_status s') n = map_of (model_status s) n
            \<and> map_of (models s') n = map_of (models s) n
            \<and> map_of (model_errors s') n = map_of (model_errors s) n)"
proof -
  let ?s1 = "s\<lparr>model_status := AList.update (name c) LOADING (model_status s)\<rparr>"
  obtain b m s2 where v: "validate_model_file e c ?s1 = ((b, m), s2)"
    by (metis surj_pair)
  from validate_model_file_frame[OF v]
  have fr: "models s2 = models s" "model_errors s2 = model_errors s"
    "model_status s2 = AList.update (name c) LOADING (model_status s)"
    "model_configs s2 = model_configs s" "model_dir s2 = model_dir s"
    "validate_checksums s2 = validate_checksums s"
    "effects s2 = effects s
       \<or> effects s2 = effects s @ [CalculateChecksum (path c) (checksum_algorithm c)]"
    by simp_all
  from fr(7) have p2: "pool_events (effects s2) = pool_events (effects s)"
    by (auto simp: pool_events_def)
  show ?thesis
  proof (cases b)
    case True
    with assms v have "load_attempts c [0 ..< nat (retry_count c)] s2 = (r, s')"
      by (simp add: load_single_model_cases Let_def)
    from load_attempts_frame[OF this] obtain new
      where n: "effects s' = effects s2 @ new" "list_all (retry_event (name c)) new"
        and o: "model_configs s' = model_configs s2" "model_dir s' = model_dir s2"
          "validate_checksums s' = validate_checksums s2"
          "\<forall>n. n \<noteq> name c \<longrightarrow> map_of (model_status s') n = map_of (model_status s2) n
            \<and> map_of (models s') n = map_of (models s2) n
            \<and> map_of (model_errors s') n = map_of (model_errors s2) n"
      by blast
    from n retry_events_no_checksum[OF n(2)] p2
    have "pool_events (effects s') = pool_events (effects s)"
      by (simp add: pool_events_append)
    with o fr show ?thesis
      by (simp add: update_conv')
  next
    case False
    with assms v fr p2 show ?thesis
      by (auto simp: load_single_model_cases Let_def update_conv')
  qed
qed

lemma load_each_frame:
  assumes "load_each e cs res s = (results, s')"
  shows "model_configs s' = model_configs s \<and> model_dir s' = model_dir s
    \<and> validate_checksums s' = validate_checksums s
    \<and> pool_events (effects s') = pool_events (effects s)
    \<and> fst ` set results = fst ` set res \<union> name ` set cs
    \<and> (\<forall>n. n \<notin> name ` set cs \<longrightarrow> map_of (model_status s') n = map_of (model_status s) n
            \<and> map_of (models s') n = map_of (models s) n
            \<and> map_of (model_errors s') n = map_of (model_errors s) n)"
  using assms
proof (induction cs arbitrary: res s)
  case Nil
  then show ?case by simp
next
  case (Cons c cs)
  obtain r s1 where l: "load_single_model e c s = (r, s1)"
    by (metis surj_pair)
  with Cons.prems have "load_each e cs (AList.update (name c) r res) s1 = (results, s')"
    by simp
  from Cons.IH[OF this] load_single_model_frame[OF l] show ?case
    by (auto simp: dom_update)
qed

lemma load_results_frame:
  assumes "load_results e in_parallel max_workers completion s = (out, s2)"
  shows "model_configs s2 = model_configs s
    \<and> pool_events (effects s2)
        = pool_events (effects s)
          @ (if in_parallel \<and> length (model_configs s) > 1
             then [ThreadPoolExecutor (pool_size (length (model_configs s)) max_workers)]
             else [])"
proof -
  let ?s0 = "if \<not> path_exists e (model_dir s)
             then s\<lparr>effects := effects s @ [Mkdir (model_dir s)]\<rparr> else s"
  let ?w = "pool_size (length (model_configs s)) max_workers"
  let ?s1 = "?s0\<lparr>effects := effects ?s0 @ [ThreadPoolExecutor ?w]\<rparr>"
  have s0: "model_configs ?s0 = model_configs s"
    "pool_events (effects ?s0) = pool_events (effects s)"
    by (simp_all add: pool_events_def)
  have s1: "model_configs ?s1 = model_configs s"
    "pool_events (effects ?s1) = pool_events (effects s) @ [ThreadPoolExecutor ?w]"
    by (simp_all add: pool_events_def)
  show ?thesis
  proof (cases "in_parallel \<and> length (model_configs s) > 1")
    case par: True
    show ?thesis
    proof (cases "?w \<le> 0")
      case True
      with par assms have "s2 = ?s1"
        by (simp add: load_results_def Let_def split: if_splits)
      with s1 par show ?thesis by simp
    next
      case False
      with par assms obtain results where "load_each e completion [] ?s1 = (results, s2)"
        by (auto simp: load_results_def Let_def split: if_splits prod.splits)
      from load_each_frame[OF this] s1 par show ?thesis by simp
    qed
  next
    case False
    with assms obtain results
      where "load_each e (map snd (model_configs ?s0)) [] ?s0 = (results, s2)"
      by (auto simp: load_results_def Let_def split: if_splits prod.splits)
    from load_each_frame[OF this] s0 False show ?thesis
      by auto
  qed
qed

text \<open>When the pool cannot be created nothing is loaded.\<close>

lemma load_results_pool_error:
  assumes "in_parallel" and "length (model_configs s) > 1"
    and "max_workers = Some w" and "w \<le> 0"
  shows "load_results e in_parallel max_workers completion s
     = (Inl (ValueError pool_error_msg),
        (if \<not> path_exists e (model_dir s)
         then s\<lparr>effects := effects s @ [Mkdir (model_dir s)]\<rparr> else s)
        \<lparr>effects := effects (if \<not> path_exists e (model_dir s)
                              then s\<lparr>effects := effects s @ [Mkdir (model_dir s)]\<rparr> else s)
                     @ [ThreadPoolExecutor w]\<rparr>)"
  using assms by (simp add: load_results_def Let_def pool_size_def)

text \<open>In every other case the loads run and produce a result map.\<close>

lemma load_results_runs:
  assumes "\<not> (in_parallel \<and> length (model_configs s) > 1
            \<and> (\<exists>w. max_workers = Some w \<and> w \<le> 0))"
  shows "\<exists>results s2. load_results e in_parallel max_workers completion s = (Inr results, s2)"
proof (cases "in_parallel \<and> length (model_configs s) > 1")
  case True
  with assms have "\<not> pool_size (length (model_configs s)) max_workers \<le> 0"
    by (cases max_workers) (auto simp: pool_size_def)
  with True show ?thesis
    by (auto simp: load_results_def Let_def split: prod.splits)
next
  case False
  then show ?thesis
    by (auto simp: load_results_def Let_def split: prod.splits)
qed

subsection \<open>C2: the check of the required models\<close>

lemma critical_msg_neq: "critical_msg xs \<noteq> no_models_msg"
  by (simp add: critical_msg_def no_models_msg_def)

lemma set_missing_required_results:
  "set (missing_required_results s results)
     = {n. \<exists>c. (n, c) \<in> set (model_configs s) \<and> required c \<and> \<not> success (result_of results n)}"
  by (force simp: missing_required_results_def)

lemma missing_required_results_nonempty:
  "missing_required_results s results \<noteq> []
     \<longleftrightarrow> (\<exists>(n, c) \<in> set (model_configs s). required c \<and> \<not> success (result_of results n))"
  by (auto simp: missing_required_results_def filter_empty_conv)

lemma missing_required_in_critical_msg:
  assumes "n \<in> set missing"
  shows "sublist n (critical_msg missing)"
proof -
  from assms have "sublist n (join '', '' missing)"
    by (rule sublist_join)
  then obtain ps ss where "join '', '' missing = ps @ n @ ss"
    by (auto simp: sublist_def)
  then have "critical_msg missing
      = (''Critical models failed to load: '' @ ps) @ n
        @ (ss @ ''. '' @ ''Service cannot start without these models.'')"
    by (simp add: critical_msg_def)
  then show ?thesis
    unfolding sublist_def by blast
qed

text \<open>The check of the required models, once the loads have produced \<open>results\<close>.\<close>

lemma load_all_models_after_loads:
  assumes "load_results e in_parallel max_workers completion s = (Inr results, s2)"
  shows "load_all_models e in_parallel max_workers completion s
     = (if \<exists>(n, c) \<in> set (model_configs s). required c \<and> \<not> success (result_of results n)
        then Inl (RuntimeError (critical_msg (missing_required_results s results)))
        else if \<not> (\<exists>r \<in> set (map snd results). success r)
          then Inl (RuntimeError no_models_msg)
        else Inr results, s2)"
proof -
  from load_results_frame[OF assms] have "model_configs s2 = model_configs s" by simp
  then have m: "missing_required_results s2 results = missing_required_results s results"
    by (simp add: missing_required_results_def)
  have "load_all_models e in_parallel max_workers completion s
     = (if missing_required_results s results \<noteq> []
        then Inl (RuntimeError (critical_msg (missing_required_results s results)))
        else if \<not> (\<exists>r \<in> set (map snd results). success r)
          then Inl (RuntimeError no_models_msg)
        else Inr results, s2)"
    using assms m
    by (simp add: load_all_models_def validate_required_models_def Let_def list_ex_iff
        del: set_map)
  then show ?thesis
    unfolding missing_required_results_nonempty .
qed

text \<open>
  C2, as the code has it. When \<open>parallel\<close> is set, more than one model is registered and
  a \<open>max_workers\<close> that is not positive is supplied, the creation of the pool raises
  \<open>ValueError\<close> and \<open>load_all_models\<close> raises it before any load: no loader is called and
  every status stays as it was. In every other case the loads run and produce a result
  map \<open>results\<close>; then \<open>load_all_models\<close> raises the error naming the critical models
  exactly when some registered required model has an unsuccessful result, and the message
  contains the name of every such model; otherwise it raises the error
  \<open>No models loaded successfully\<close>, a different message, exactly when no result is
  successful; otherwise it returns \<open>results\<close>.
\<close>

theorem load_all_models_gating:
  "(in_parallel \<and> length (model_configs s) > 1 \<and> max_workers = Some w \<and> w \<le> 0 \<longrightarrow>
      fst (load_all_models e in_parallel max_workers completion s)
        = Inl (ValueError ''max_workers must be greater than 0'')
      \<and> (\<forall>n. loader_calls n (effects (snd (load_all_models e in_parallel max_workers
                                              completion s)))
               = loader_calls n (effects s))
      \<and> model_status (snd (load_all_models e in_parallel max_workers completion s))
          = model_status s)
   \<and> (\<not> (in_parallel \<and> length (model_configs s) > 1
           \<and> (\<exists>w. max_workers = Some w \<and> w \<le> 0)) \<longrightarrow>
        (\<exists>results s2.
           load_results e in_parallel max_workers completion s = (Inr results, s2)
           \<and> load_all_models e in_parallel max_workers completion s
               = (if \<exists>(n, c) \<in> set (model_configs s).
                       required c \<and> \<not> success (result_of results n)
                  then Inl (RuntimeError (critical_msg (missing_required_results s results)))
                  else if \<not> (\<exists>r \<in> set (map snd results). success r)
                    then Inl (RuntimeError no_models_msg)
                  else Inr results, s2)
           \<and> set (missing_required_results s results)
               = {n. \<exists>c. (n, c) \<in> set (model_configs s) \<and> required c
                       \<and> \<not> success (result_of results n)}
           \<and> (\<forall>n \<in> set (missing_required_results s results).
                 sublist n (critical_msg (missing_required_results s results)))
           \<and> critical_msg (missing_required_results s results) \<noteq> no_models_msg))"
proof (intro conjI impI)
  assume a: "in_parallel \<and> length (model_configs s) > 1 \<and> max_workers = Some w \<and> w \<le> 0"
  then have r: "load_results e in_parallel max_workers completion s
     = (Inl (ValueError pool_error_msg),
        (if \<not> path_exists e (model_dir s)
         then s\<lparr>effects := effects s @ [Mkdir (model_dir s)]\<rparr> else s)
        \<lparr>effects := effects (if \<not> path_exists e (model_dir s)
                              then s\<lparr>effects := effects s @ [Mkdir (model_dir s)]\<rparr> else s)
                     @ [ThreadPoolExecutor w]\<rparr>)"
    by (intro load_results_pool_error) simp_all
  show "fst (load_all_models e in_parallel max_workers completion s)
        = Inl (ValueError ''max_workers must be greater than 0'')"
    by (simp add: load_all_models_def r pool_error_msg_def)
  show "\<forall>n. loader_calls n (effects (snd (load_all_models e in_parallel max_workers
                                              completion s)))
               = loader_calls n (effects s)"
    by (simp add: load_all_models_def r loader_calls_def)
  show "model_status (snd (load_all_models e in_parallel max_workers completion s))
          = model_status s"
    by (simp add: load_all_models_def r)
next
  assume "\<not> (in_parallel \<and> length (model_configs s) > 1
           \<and> (\<exists>w. max_workers = Some w \<and> w \<le> 0))"
  from load_results_runs[OF this] obtain results s2
    where r: "load_results e in_parallel max_workers completion s = (Inr results, s2)"
    by blast
  have "load_results e in_parallel max_workers completion s = (Inr results, s2)
      \<and> load_all_models e in_parallel max_workers completion s
          = (if \<exists>(n, c) \<in> set (model_configs s).
                  required c \<and> \<not> success (result_of results n)
             then Inl (RuntimeError (critical_msg (missing_required_results s results)))
             else if \<not> (\<exists>r \<in> set (map snd results). success r)
               then Inl (RuntimeError no_models_msg)
             else Inr results, s2)
      \<and> set (missing_required_results s results)
          = {n. \<exists>c. (n, c) \<in> set (model_configs s) \<and> required c
                  \<and> \<not> success (result_of results n)}
      \<and> (\<forall>n \<in> set (missing_required_results s results).
            sublist n (critical_msg (missing_required_results s results)))
      \<and> critical_msg (missing_required_results s results) \<noteq> no_models_msg"
    using r load_all_models_after_loads[OF r] set_missing_required_results[of s results]
      missing_required_in_critical_msg[of _ "missing_required_results s results"]
      critical_msg_neq[of "missing_required_results s results"]
    by (intro conjI ballI) assumption+
  then show "\<exists>results s2.
           load_results e in_parallel max_workers completion s = (Inr results, s2)
           \<and> load_all_models e in_parallel max_workers completion s
               = (if \<exists>(n, c) \<in> set (model_configs s).
                       required c \<and> \<not> success (result_of results n)
                  then Inl (RuntimeError (critical_msg (missing_required_results s results)))
                  else if \<not> (\<exists>r \<in> set (map snd results). success r)
                    then Inl (RuntimeError no_models_msg)
                  else Inr results, s2)
           \<and> set (missing_required_results s results)
               = {n. \<exists>c. (n, c) \<in> set (model_configs s) \<and> required c
                       \<and> \<not> success (result_of results n)}
           \<and> (\<forall>n \<in> set (missing_required_results s results).
                 sublist n (critical_msg (missing_required_results s results)))
           \<and> critical_msg (missing_required_results s results) \<noteq> no_models_msg"
    by blast
qed

theorem load_all_models_gating_witness:
  "fst (load_all_models ex_env True (Some 0) (map snd (model_configs ex_two_optional))
          ex_two_optional)
     = Inl (ValueError ''max_workers must be greater than 0'')
   \<and> fst (load_all_models ex_env False None [] ex_required_missing)
     = Inl (RuntimeError
         ''Critical models failed to load: A. Service cannot start without these models.'')
   \<and> fst (load_all_models ex_env False None [] (ex_loader [ex_missing]))
     = Inl (RuntimeError ''No models loaded successfully! Service cannot start.'')
   \<and> map_sum id (map (\<lambda>(n, r). (n, success r)))
        (fst (load_all_models ex_env False None [] ex_optional_missing))
     = Inr [(''A'', True), (''B'', False)]"
proof -
  let ?r1 = "load_results ex_env False None [] ex_required_missing"
  let ?r2 = "load_results ex_env False None [] (ex_loader [ex_missing])"
  let ?r3 = "load_results ex_env False None [] ex_optional_missing"
  have h0: "True \<and> length (model_configs ex_two_optional) > 1
      \<and> Some (0::int) = Some 0 \<and> (0::int) \<le> 0"
    by (simp add: ex_two_optional_def ex_simps)
  have seq: "\<not> (False \<and> length (model_configs s) > 1 \<and> (\<exists>w. None = Some w \<and> w \<le> 0))"
    for s :: "nat ModelLoader"
    by simp
  have i1: "fst ?r1 = Inr (projr (fst ?r1))"
    and m1: "missing_required_results ex_required_missing (projr (fst ?r1)) = [''A'']"
    by (simp_all add: ex_required_missing_def ex_simps)
  have i2: "fst ?r2 = Inr (projr (fst ?r2))"
    and m2: "missing_required_results (ex_loader [ex_missing]) (projr (fst ?r2)) = []"
      "map (\<lambda>(n, r). (n, success r)) (projr (fst ?r2)) = [(''B'', False)]"
    by (simp_all add: ex_missing_def ex_simps)
  have i3: "fst ?r3 = Inr (projr (fst ?r3))"
    and m3: "missing_required_results ex_optional_missing (projr (fst ?r3)) = []"
      "map (\<lambda>(n, r). (n, success r)) (projr (fst ?r3)) = [(''A'', True), (''B'', False)]"
    by (simp_all add: ex_optional_missing_def ex_missing_def ex_simps)
  have s2: "\<not> (\<exists>r \<in> set (map snd (projr (fst ?r2))). success r)"
    using m2(2) by (cases "projr (fst ?r2)") auto
  have s3: "\<exists>r \<in> set (map snd (projr (fst ?r3))). success r"
    using m3(2) by (cases "projr (fst ?r3)") auto
  have c1: "\<exists>(n, c) \<in> set (model_configs ex_required_missing).
      required c \<and> \<not> success (result_of (projr (fst ?r1)) n)"
    using m1 missing_required_results_nonempty[of ex_required_missing "projr (fst ?r1)"]
    by simp
  have c2: "\<not> (\<exists>(n, c) \<in> set (model_configs (ex_loader [ex_missing])).
      required c \<and> \<not> success (result_of (projr (fst ?r2)) n))"
    using m2(1) missing_required_results_nonempty[of "ex_loader [ex_missing]" "projr (fst ?r2)"]
    by simp
  have c3: "\<not> (\<exists>(n, c) \<in> set (model_configs ex_optional_missing).
      required c \<and> \<not> success (result_of (projr (fst ?r3)) n))"
    using m3(1) missing_required_results_nonempty[of ex_optional_missing "projr (fst ?r3)"]
    by simp
  note t0 = load_all_models_gating[where s=ex_two_optional and e=ex_env and in_parallel=True
      and max_workers="Some 0" and w=0
      and completion="map snd (model_configs ex_two_optional)",
      THEN conjunct1, rule_format, OF h0, THEN conjunct1]
  from load_all_models_gating[where s=ex_required_missing and e=ex_env and in_parallel=False
      and max_workers=None and completion="[]", THEN conjunct2, rule_format, OF seq]
  obtain res1 where "fst ?r1 = Inr res1"
    and g1: "fst (load_all_models ex_env False None [] ex_required_missing)
      = (if \<exists>(n, c) \<in> set (model_configs ex_required_missing).
              required c \<and> \<not> success (result_of res1 n)
         then Inl (RuntimeError (critical_msg (missing_required_results ex_required_missing res1)))
         else if \<not> (\<exists>r \<in> set (map snd res1). success r)
           then Inl (RuntimeError no_models_msg)
         else Inr res1)"
    by fastforce
  with i1 have e1: "res1 = projr (fst ?r1)" by simp
  from load_all_models_gating[where s="ex_loader [ex_missing]" and e=ex_env
      and in_parallel=False and max_workers=None and completion="[]",
      THEN conjunct2, rule_format, OF seq]
  obtain res2 where "fst ?r2 = Inr res2"
    and g2: "fst (load_all_models ex_env False None [] (ex_loader [ex_missing]))
      = (if \<exists>(n, c) \<in> set (model_configs (ex_loader [ex_missing])).
              required c \<and> \<not> success (result_of res2 n)
         then Inl (RuntimeError
                (critical_msg (missing_required_results (ex_loader [ex_missing]) res2)))
         else if \<not> (\<exists>r \<in> set (map snd res2). success r)
           then Inl (RuntimeError no_models_msg)
         else Inr res2)"
    by fastforce
  with i2 have e2: "res2 = projr (fst ?r2)" by simp
  from load_all_models_gating[where s=ex_optional_missing and e=ex_env
      and in_parallel=False and max_workers=None and completion="[]",
      THEN conjunct2, rule_format, OF seq]
  obtain res3 where "fst ?r3 = Inr res3"
    and g3: "fst (load_all_models ex_env False None [] ex_optional_missing)
      = (if \<exists>(n, c) \<in> set (model_configs ex_optional_missing).
              required c \<and> \<not> success (result_of res3 n)
         then Inl (RuntimeError (critical_msg (missing_required_results ex_optional_missing res3)))
         else if \<not> (\<exists>r \<in> set (map snd res3). success r)
           then Inl (RuntimeError no_models_msg)
         else Inr res3)"
    by fastforce
  with i3 have e3: "res3 = projr (fst ?r3)" by simp
  have a: "fst (load_all_models ex_env False None [] ex_required_missing)
     = Inl (RuntimeError
         ''Critical models failed to load: A. Service cannot start without these models.'')"
    unfolding g1 e1 if_P[OF c1] m1 by (simp add: critical_msg_def)
  have b: "fst (load_all_models ex_env False None [] (ex_loader [ex_missing]))
     = Inl (RuntimeError ''No models loaded successfully! Service cannot start.'')"
    unfolding g2 e2 if_not_P[OF c2] if_P[OF s2] by (simp add: no_models_msg_def)
  have "\<not> \<not> (\<exists>r \<in> set (map snd (projr (fst ?r3))). success r)" using s3 by simp
  then have c: "fst (load_all_models ex_env False None [] ex_optional_missing)
     = Inr (projr (fst ?r3))"
    unfolding g3 e3 if_not_P[OF c3] by simp
  from t0 a b c m3(2) show ?thesis by simp
qed

text \<open>
  The claim C2 as stated, that \<open>load_all_models\<close> raises one of the two errors of the
  check of the required models or returns the result map, fails for two optional models
  that load, \<open>parallel\<close> set and \<open>max_workers = 0\<close>: \<open>ValueError\<close> is raised and no model
  is loaded, while the same loader with \<open>max_workers = 1\<close> returns the result map with
  both models loaded.
\<close>

theorem load_all_models_gating_counterexample:
  "fst (load_all_models ex_env True (Some 0) (map snd (model_configs ex_two_optional))
          ex_two_optional)
     = Inl (ValueError ''max_workers must be greater than 0'')
   \<and> effects (snd (load_all_models ex_env True (Some 0)
        (map snd (model_configs ex_two_optional)) ex_two_optional))
     = [ThreadPoolExecutor 0]
   \<and> map (required \<circ> snd) (model_configs ex_two_optional) = [False, False]
   \<and> map_sum id (map (\<lambda>(n, r). (n, success r)))
        (fst (load_all_models ex_env True (Some 1) (map snd (model_configs ex_two_optional))
                ex_two_optional))
     = Inr [(''A'', True), (''B'', True)]"
  by (simp add: ex_two_optional_def ex_simps)

subsection \<open>C7: the size of the worker pool\<close>

lemma snd_load_all_models:
  "snd (load_all_models e in_parallel max_workers completion s)
     = snd (load_results e in_parallel max_workers completion s)"
  by (simp add: load_all_models_def split: prod.splits sum.splits)

text \<open>
  C7, as the code has it. \<open>load_all_models\<close> creates a pool exactly when \<open>parallel\<close> is
  set and more than one model is registered. The pool is created with
  \<open>min(registered_count, 3)\<close> workers when \<open>max_workers\<close> is not supplied, and with the
  supplied \<open>max_workers\<close> itself otherwise: a supplied value is not capped by the number of
  registered models.
\<close>

theorem pool_size_of_load_all_models:
  "pool_events (effects (snd (load_all_models e in_parallel max_workers completion s)))
     = pool_events (effects s)
       @ (if in_parallel \<and> length (model_configs s) > 1
          then [ThreadPoolExecutor
                  (case max_workers of
                     None \<Rightarrow> min (int (length (model_configs s))) 3
                   | Some w \<Rightarrow> w)]
          else [])"
proof -
  obtain out s2
    where r: "load_results e in_parallel max_workers completion s = (out, s2)"
    by (metis surj_pair)
  from load_results_frame[OF r] r show ?thesis
    by (simp add: snd_load_all_models pool_size_def)
qed

text \<open>
  The claim C7 as stated, that the size is \<open>min(N, W)\<close> also for a supplied \<open>W\<close>, fails
  for two registered models and \<open>max_workers = 8\<close>: the pool is created with 8 workers,
  and \<open>min(2, 8) = 2\<close>.
\<close>

theorem pool_size_counterexample:
  "pool_events (effects (snd (load_all_models ex_env True (Some 8)
       (map snd (model_configs ex_optional_missing)) ex_optional_missing)))
     = [ThreadPoolExecutor 8]
   \<and> min (int (length (model_configs ex_optional_missing))) 8 = 2"
  by (simp add: ex_optional_missing_def ex_missing_def ex_simps pool_events_def)

subsection \<open>C6: the statuses after \<open>load_all_models\<close>\<close>

text \<open>
  C6. With two optional models whose files are valid, the second registered with
  \<open>retry_count = 0\<close>, the sequential \<open>load_all_models\<close> returns the result map without
  raising, and the status of the second model is \<open>LOADING\<close> afterwards: the code after
  the retry loop returns an unsuccessful result (\<open>Unknown error during loading\<close>) without
  setting the status to \<open>FAILED\<close>, as the two other failure returns of
  \<open>load_single_model\<close> do.
\<close>

theorem zero_retry_leaves_loading:
  "fst (load_all_models ex_env False None [] ex_zero_retry)
     = fst (load_results ex_env False None [] ex_zero_retry)
   \<and> map fst (model_configs ex_zero_retry) = [''A'', ''B'']
   \<and> model_status (snd (load_all_models ex_env False None [] ex_zero_retry))
     = [(''A'', LOADED), (''B'', LOADING)]
   \<and> map_sum id (map (\<lambda>(n, r). (n, success r, error_message r)))
        (fst (load_all_models ex_env False None [] ex_zero_retry))
     = Inr [(''A'', True, None), (''B'', False, Some ''Unknown error during loading'')]"
  by (simp add: ex_zero_retry_def ex_simps)

text \<open>The retry loop ends in a final status as soon as it has a last attempt, that is,
  for every retry count of at least 1; so the status \<open>LOADING\<close> above is the effect of
  the empty loop alone.\<close>

lemma load_attempts_terminal:
  assumes "as \<noteq> []" and "int (last as) = retry_count c - 1"
    and "load_attempts c as s = (r, s')"
  shows "map_of (model_status s') (name c) = Some (if success r then LOADED else FAILED)"
  using assms
proof (induction as arbitrary: s)
  case Nil
  then show ?case by simp
next
  case (Cons a as)
  show ?case
  proof (cases "call_loader c (loader_calls (name c) (effects s))")
    case (Inr m)
    with Cons.prems show ?thesis
      by (auto simp: Let_def update_conv')
  next
    case (Inl exc)
    show ?thesis
    proof (cases "int a = retry_count c - 1")
      case True
      with Inl Cons.prems show ?thesis
        by (auto simp: Let_def update_conv')
    next
      case False
      with Cons.prems have ne: "as \<noteq> []" by auto
      with Cons.prems have l: "int (last as) = retry_count c - 1" by simp
      from False Inl Cons.prems
      have "load_attempts c as
          (s\<lparr>effects := effects s @ [LoaderCall (name c)] @ [Sleep ((1 / 2) * 2 ^ a)]\<rparr>)
          = (r, s')"
        by (simp add: Let_def)
      from Cons.IH[OF ne l this] show ?thesis .
    qed
  qed
qed

lemma load_single_model_terminal:
  assumes "1 \<le> retry_count c" and "load_single_model e c s = (r, s')"
  shows "map_of (model_status s') (name c) = Some (if success r then LOADED else FAILED)"
proof -
  let ?s1 = "s\<lparr>model_status := AList.update (name c) LOADING (model_status s)\<rparr>"
  obtain b m s2 where v: "validate_model_file e c ?s1 = ((b, m), s2)"
    by (metis surj_pair)
  show ?thesis
  proof (cases b)
    case True
    with assms(2) v have run: "load_attempts c [0 ..< nat (retry_count c)] s2 = (r, s')"
      by (simp add: load_single_model_cases Let_def)
    from assms(1) obtain R where R: "nat (retry_count c) = Suc R"
      by (cases "nat (retry_count c)") auto
    with assms(1) have "[0 ..< nat (retry_count c)] \<noteq> []"
      "int (last [0 ..< nat (retry_count c)]) = retry_count c - 1"
      by auto
    from load_attempts_terminal[OF this run] show ?thesis .
  next
    case False
    with assms(2) v show ?thesis
      by (auto simp: load_single_model_cases Let_def update_conv')
  qed
qed

lemma load_each_terminal:
  assumes "\<forall>c \<in> set cs. 1 \<le> retry_count c" and "load_each e cs res s = (results, s')"
  shows "\<forall>c \<in> set cs. map_of (model_status s') (name c) \<in> {Some LOADED, Some FAILED}"
  using assms
proof (induction cs arbitrary: res s)
  case Nil
  then show ?case by simp
next
  case (Cons c cs)
  obtain r s1 where l: "load_single_model e c s = (r, s1)"
    by (metis surj_pair)
  with Cons.prems have run: "load_each e cs (AList.update (name c) r res) s1 = (results, s')"
    by simp
  from Cons.prems have rc: "1 \<le> retry_count c" "\<forall>c \<in> set cs. 1 \<le> retry_count c"
    by simp_all
  from Cons.IH[OF rc(2) run]
  have rest: "\<forall>c \<in> set cs. map_of (model_status s') (name c) \<in> {Some LOADED, Some FAILED}" .
  have "map_of (model_status s') (name c) \<in> {Some LOADED, Some FAILED}"
  proof (cases "name c \<in> name ` set cs")
    case True
    with rest show ?thesis by auto
  next
    case False
    with load_each_frame[OF run]
    have "map_of (model_status s') (name c) = map_of (model_status s1) (name c)" by simp
    with load_single_model_terminal[OF rc(1) l] show ?thesis by simp
  qed
  with rest show ?case by simp
qed

text \<open>With every registered retry count at least 1 the statuses are final after the
  loads, in sequential mode and for any order of completion in parallel mode.\<close>

lemma load_results_terminal:
  assumes "\<forall>(n, c) \<in> set (model_configs s). name c = n \<and> 1 \<le> retry_count c"
    and "set completion = snd ` set (model_configs s)"
    and "load_results e in_parallel max_workers completion s = (Inr results, s')"
  shows "\<forall>n \<in> fst ` set (model_configs s).
           map_of (model_status s') n \<in> {Some LOADED, Some FAILED}"
proof -
  let ?cs = "if in_parallel \<and> length (model_configs s) > 1 then completion
             else map snd (model_configs s)"
  have cs: "set ?cs = snd ` set (model_configs s)"
    using assms(2) by simp
  with assms(1) have rc: "\<forall>c \<in> set ?cs. 1 \<le> retry_count c" by auto
  from assms(3) obtain s1 where "load_each e ?cs [] s1 = (results, s')"
    by (auto simp: load_results_def Let_def split: if_splits prod.splits)
  from load_each_terminal[OF rc this]
  have "\<forall>c \<in> set ?cs. map_of (model_status s') (name c) \<in> {Some LOADED, Some FAILED}" .
  with cs assms(1) show ?thesis by force
qed

end
